theory Spec2Isabelle
  imports Complex_Main "HOL-Library.Sublist" "HOL-Library.Multiset"
begin

section \<open>The search-citations edge function\<close>

text \<open>
  A shallow embedding of \<^verbatim>\<open>supabase/functions/search-citations/index.ts\<close>: the
  deduplication and ranking functions, and the request handler with its external
  collaborators (query expansion, the two provider searches, the history store, the
  wall clock, the engine's \<^verbatim>\<open>Math.log\<close>) taken as inputs.
\<close>

subsection \<open>Strings\<close>

text \<open>
  A JavaScript string is modelled as an Isabelle \<open>string\<close>: a list of 8-bit characters,
  read as the code points U+0000 to U+00FF. Strings with code points above U+00FF are
  outside the model. On this range \<^verbatim>\<open>toLowerCase\<close> maps A to Z and the capital
  letters U+00C0 to U+00DE (U+00D7, the multiplication sign, apart) to the code point 32
  above, and leaves every other code point alone; the white space of \<^verbatim>\<open>trim\<close> and of
  the regular expression class \<^verbatim>\<open>\s\<close> is tab, line feed, vertical tab, form feed,
  carriage return, space and the no-break space U+00A0.
\<close>

definition lower_char :: "char \<Rightarrow> char" where
  "lower_char c =
     (let n = (of_char c :: nat)
      in if (65 \<le> n \<and> n \<le> 90) \<or> (192 \<le> n \<and> n \<le> 222 \<and> n \<noteq> 215)
         then char_of (n + 32) else c)"

definition toLowerCase :: "string \<Rightarrow> string" where
  "toLowerCase s = map lower_char s"

definition is_space :: "char \<Rightarrow> bool" where
  "is_space c = (of_char c \<in> {9, 10, 11, 12, 13, 32, 160 :: nat})"

definition trim :: "string \<Rightarrow> string" where
  "trim s = rev (dropWhile is_space (rev (dropWhile is_space s)))"

text \<open>
  \<^verbatim>\<open>s.includes(t)\<close>: \<open>t\<close> occurs in \<open>s\<close> as a contiguous substring. The empty
  string occurs in every string.
\<close>

fun str_includes :: "string \<Rightarrow> string \<Rightarrow> bool" where
  "str_includes [] t = (t = [])"
| "str_includes (c # s) t = (prefix t (c # s) \<or> str_includes s t)"

text \<open>
  \<^verbatim>\<open>s.split(/\s+/)\<close>: the fields between maximal runs of white space. White space
  at the start or at the end of \<open>s\<close> gives an empty first or last field, and the empty
  string gives one empty field. \<open>split_go cur rest\<close> scans \<open>rest\<close> with the current
  field \<open>cur\<close> collected so far.
\<close>

function split_go :: "string \<Rightarrow> string \<Rightarrow> string list" where
  "split_go cur [] = [cur]"
| "split_go cur (c # cs) =
     (if is_space c then cur # split_go [] (dropWhile is_space cs)
      else split_go (cur @ [c]) cs)"
  by pat_completeness auto
termination
  by (relation "measure (\<lambda>(cur, s). length s)")
     (auto simp: length_dropWhile_le less_Suc_eq_le)

definition split_ws :: "string \<Rightarrow> string list" where
  "split_ws s = split_go [] s"

subsection \<open>Data model\<close>

text \<open>
  The object both provider adapters build for each paper. \<open>year\<close>, \<open>url\<close> and \<open>doi\<close>
  may be \<^verbatim>\<open>null\<close> or \<^verbatim>\<open>undefined\<close> (\<open>None\<close>); \<open>citationCount\<close> is the provider's
  count or 0.
\<close>

record NormalizedCitation =
  title :: string
  authors :: string
  year :: "int option"
  abstract :: string
  url :: "string option"
  source :: string
  citationCount :: nat
  doi :: "string option"

text \<open>The object \<^verbatim>\<open>{ ...result, relevanceScore: score }\<close> of \<^verbatim>\<open>rankResults\<close>.\<close>

record ScoredCitation = NormalizedCitation +
  relevanceScore :: real

subsection \<open>Deduplication\<close>

text \<open>
  \<^verbatim>\<open>const key = result.doi || result.title.toLowerCase().trim();\<close>
  The left operand of \<^verbatim>\<open>||\<close> is taken when it is truthy: a DOI that is present and
  not the empty string.
\<close>

definition dedup_key :: "NormalizedCitation \<Rightarrow> string" where
  "dedup_key result =
     (case doi result of
        Some d \<Rightarrow> if d \<noteq> [] then d else trim (toLowerCase (title result))
      | None \<Rightarrow> trim (toLowerCase (title result)))"

text \<open>
  The loop of \<^verbatim>\<open>deduplicateResults\<close> over the remaining results, with the set
  \<open>seen\<close> and the array \<open>unique\<close> as its state.
\<close>

fun dedup_loop ::
  "NormalizedCitation list \<Rightarrow> string set \<Rightarrow> NormalizedCitation list \<Rightarrow> NormalizedCitation list"
where
  "dedup_loop [] seen unique = unique"
| "dedup_loop (result # results) seen unique =
     (let key = dedup_key result
      in if key \<notin> seen
         then dedup_loop results (insert key seen) (unique @ [result])
         else dedup_loop results seen unique)"

definition deduplicateResults :: "NormalizedCitation list \<Rightarrow> NormalizedCitation list" where
  "deduplicateResults results = dedup_loop results {} []"

text \<open>
  The record at position \<open>i\<close> of \<open>rs\<close> is a first occurrence when no record before it
  has its key.
\<close>

definition first_occurrence :: "NormalizedCitation list \<Rightarrow> nat \<Rightarrow> bool" where
  "first_occurrence rs i = (dedup_key (rs ! i) \<notin> set (map dedup_key (take i rs)))"

text \<open>A record without a usable DOI: the field is absent or the empty string.\<close>

definition no_doi :: "NormalizedCitation \<Rightarrow> bool" where
  "no_doi r = (doi r = None \<or> doi r = Some [])"

text \<open>Example records.\<close>

definition paper :: "string \<Rightarrow> string option \<Rightarrow> NormalizedCitation" where
  "paper t d =
     \<lparr>title = t, authors = ''Unknown'', year = None, abstract = ''No abstract available'',
      url = None, source = ''CrossRef'', citationCount = 0, doi = d\<rparr>"

subsection \<open>Numbers\<close>

text \<open>
  A JavaScript number is an IEEE 754 binary64 value. The model takes the finite ones as
  the real numbers they denote and rounds the exact result of every operation to the
  nearest of them, ties to the even significand: \<open>rne\<close> rounds a real to the nearest
  integer, \<open>ulp x\<close> is the distance between the binary64 values around \<open>x\<close> (53
  significant bits, gradual underflow below \<open>2 powr - 1022\<close>), and \<open>fl\<close> rounds to the
  nearest multiple of it. Overflow to \<^verbatim>\<open>Infinity\<close> is not modelled: a score is far
  below \<open>2 ^ 1023\<close>.
\<close>

definition rne :: "real \<Rightarrow> int" where
  "rne x =
     (let f = \<lfloor>x\<rfloor>; d = x - of_int f
      in if d < 1/2 then f else if 1/2 < d then f + 1 else if even f then f else f + 1)"

definition expo :: "real \<Rightarrow> int" where
  "expo x = max \<lfloor>log 2 \<bar>x\<bar>\<rfloor> (- 1022)"

definition ulp :: "real \<Rightarrow> real" where
  "ulp x = 2 powr (of_int (expo x - 52))"

definition fl :: "real \<Rightarrow> real" where
  "fl x = of_int (rne (x / ulp x)) * ulp x"

text \<open>The operators \<^verbatim>\<open>+\<close> and \<^verbatim>\<open>*\<close> on numbers.\<close>

definition js_add :: "real \<Rightarrow> real \<Rightarrow> real" where
  "js_add a b = fl (a + b)"

definition js_mul :: "real \<Rightarrow> real \<Rightarrow> real" where
  "js_mul a b = fl (a * b)"

text \<open>
  \<^verbatim>\<open>Math.log(x)\<close> for \<open>x \<ge> 1\<close>: +0 when \<open>x\<close> is 1, otherwise the number the
  engine's implementation \<open>impl\<close> gives as its approximation of the natural logarithm.
  ECMAScript leaves the approximation to the implementation, so \<open>impl\<close> is an input
  of the model.
\<close>

definition Math_log :: "(real \<Rightarrow> real) \<Rightarrow> real \<Rightarrow> real" where
  "Math_log impl x = (if x = 1 then 0 else impl x)"

subsection \<open>Ranking\<close>

text \<open>
  \<^verbatim>\<open>queryLower.split(/\s+/).filter(term => term.length > 2)\<close>
\<close>

definition query_terms :: "string \<Rightarrow> string list" where
  "query_terms queryLower = filter (\<lambda>term. length term > 2) (split_ws queryLower)"

text \<open>
  \<^verbatim>\<open>queryTerms.forEach(term => { if (text.includes(term)) { score += w; } })\<close>
\<close>

definition add_term_matches :: "string \<Rightarrow> real \<Rightarrow> string list \<Rightarrow> real \<Rightarrow> real" where
  "add_term_matches text w queryTerms score =
     fold (\<lambda>term sc. if str_includes text term then js_add sc w else sc) queryTerms score"

text \<open>
  \<^verbatim>\<open>result.year && currentYear - result.year <= 5\<close>: a year that is \<^verbatim>\<open>null\<close>
  or 0 is falsy and ends the conjunction.
\<close>

definition recent :: "int \<Rightarrow> int option \<Rightarrow> bool" where
  "recent currentYear y =
     (case y of None \<Rightarrow> False | Some n \<Rightarrow> n \<noteq> 0 \<and> currentYear - n \<le> 5)"

text \<open>
  The body of the \<^verbatim>\<open>map\<close> callback of \<^verbatim>\<open>rankResults\<close>, one binding for each
  assignment to \<^verbatim>\<open>score\<close>. \<open>currentYear\<close> is the value of
  \<^verbatim>\<open>new Date().getFullYear()\<close>, taken to be the same for every record of one call;
  \<open>citationCount\<close> holds a number that is a natural number.
\<close>

definition score_result ::
  "(real \<Rightarrow> real) \<Rightarrow> int \<Rightarrow> string \<Rightarrow> string list \<Rightarrow> NormalizedCitation \<Rightarrow> real"
where
  "score_result impl currentYear queryLower queryTerms result =
     (let score0 = 0;
          titleLower = toLowerCase (title result);
          abstractLower = toLowerCase (abstract result);
          score1 = (if str_includes titleLower queryLower then js_add score0 10 else score0);
          score2 = add_term_matches titleLower 3 queryTerms score1;
          score3 = (if str_includes abstractLower queryLower then js_add score2 5 else score2);
          score4 = add_term_matches abstractLower 1 queryTerms score3;
          score5 = js_add score4
                     (js_mul (Math_log impl (js_add (real (citationCount result)) 1)) 0.5);
          score6 = (if recent currentYear (year result) then js_add score5 3 else score5);
          score7 = (if source result = ''Semantic Scholar'' then js_add score6 0.5 else score6)
      in score7)"

definition with_score :: "NormalizedCitation \<Rightarrow> real \<Rightarrow> ScoredCitation" where
  "with_score result score =
     \<lparr>title = title result, authors = authors result, year = year result,
      abstract = abstract result, url = url result, source = source result,
      citationCount = citationCount result, doi = doi result, relevanceScore = score\<rparr>"

text \<open>
  \<^verbatim>\<open>results.map(...).sort((a, b) => b.relevanceScore - a.relevanceScore)\<close>.
  \<^verbatim>\<open>Array.prototype.sort\<close> is a stable sort, and the comparator puts \<open>a\<close> before
  \<open>b\<close> when \<open>a\<close> has the larger score: the stable insertion sort \<open>sort_key\<close> on the
  negated score.
\<close>

definition rankResults ::
  "(real \<Rightarrow> real) \<Rightarrow> int \<Rightarrow> NormalizedCitation list \<Rightarrow> string \<Rightarrow> ScoredCitation list"
where
  "rankResults impl currentYear results originalQuery =
     (let queryLower = toLowerCase originalQuery;
          queryTerms = query_terms queryLower
      in sort_key (\<lambda>a. - relevanceScore a)
           (map (\<lambda>result. with_score result
                   (score_result impl currentYear queryLower queryTerms result))
              results))"

text \<open>
  The contributions to the score of a record, in the order they are added, and their sum
  in the arithmetic of numbers, to be compared with \<open>score_result\<close>.
\<close>

definition count_matches :: "string \<Rightarrow> string list \<Rightarrow> nat" where
  "count_matches text terms = length (filter (\<lambda>term. str_includes text term) terms)"

definition contributions ::
  "(real \<Rightarrow> real) \<Rightarrow> int \<Rightarrow> string \<Rightarrow> NormalizedCitation \<Rightarrow> real list"
where
  "contributions impl currentYear originalQuery r =
     (if str_includes (toLowerCase (title r)) (toLowerCase originalQuery) then [10] else [])
     @ replicate (count_matches (toLowerCase (title r))
                    (query_terms (toLowerCase originalQuery))) 3
     @ (if str_includes (toLowerCase (abstract r)) (toLowerCase originalQuery) then [5] else [])
     @ replicate (count_matches (toLowerCase (abstract r))
                    (query_terms (toLowerCase originalQuery))) 1
     @ [js_mul (Math_log impl (js_add (real (citationCount r)) 1)) 0.5]
     @ (case year r of None \<Rightarrow> [] | Some y \<Rightarrow> if currentYear - y \<le> 5 then [3] else [])
     @ (if source r = ''Semantic Scholar'' then [0.5] else [])"

definition score_sum :: "(real \<Rightarrow> real) \<Rightarrow> int \<Rightarrow> string \<Rightarrow> NormalizedCitation \<Rightarrow> real" where
  "score_sum impl currentYear originalQuery r =
     foldl js_add 0 (contributions impl currentYear originalQuery r)"

text \<open>The score \<^verbatim>\<open>rankResults\<close> gives a record for a query.\<close>

definition score_for :: "(real \<Rightarrow> real) \<Rightarrow> int \<Rightarrow> string \<Rightarrow> NormalizedCitation \<Rightarrow> real" where
  "score_for impl currentYear originalQuery r =
     score_result impl currentYear (toLowerCase originalQuery)
       (query_terms (toLowerCase originalQuery)) r"

text \<open>The records of a list with their scores, in the order of the list.\<close>

definition scored ::
  "(real \<Rightarrow> real) \<Rightarrow> int \<Rightarrow> string \<Rightarrow> NormalizedCitation list \<Rightarrow> ScoredCitation list"
where
  "scored impl currentYear originalQuery rs =
     map (\<lambda>r. with_score r (score_for impl currentYear originalQuery r)) rs"

text \<open>A list of scored records in non-increasing order of the score.\<close>

definition descending :: "ScoredCitation list \<Rightarrow> bool" where
  "descending xs = sorted_wrt (\<lambda>a b. relevanceScore a \<ge> relevanceScore b) xs"

text \<open>The fields of a record and of a scored record, as tuples.\<close>

definition citation_fields ::
  "NormalizedCitation \<Rightarrow>
   string \<times> string \<times> int option \<times> string \<times> string option \<times> string \<times> nat \<times> string option"
where
  "citation_fields r = (title r, authors r, year r, abstract r, url r, source r, citationCount r, doi r)"

definition scored_fields ::
  "ScoredCitation \<Rightarrow>
   string \<times> string \<times> int option \<times> string \<times> string option \<times> string \<times> nat \<times> string option"
where
  "scored_fields a =
     (title a, authors a, year a, abstract a, url a, source a, citationCount a, doi a)"

text \<open>
  The score after the four lexical steps, the number added for the citations, and the
  last two steps, as parts of \<open>score_for\<close>.
\<close>

definition lexical :: "string \<Rightarrow> NormalizedCitation \<Rightarrow> real" where
  "lexical originalQuery r =
     (let queryLower = toLowerCase originalQuery;
          queryTerms = query_terms queryLower;
          titleLower = toLowerCase (title r);
          abstractLower = toLowerCase (abstract r);
          score1 = (if str_includes titleLower queryLower then js_add 0 10 else 0);
          score2 = add_term_matches titleLower 3 queryTerms score1;
          score3 = (if str_includes abstractLower queryLower then js_add score2 5 else score2)
      in add_term_matches abstractLower 1 queryTerms score3)"

text \<open>
  The same score as an integer, and what the last two steps add to a score that they
  do not round.
\<close>

definition lexical_int :: "string \<Rightarrow> NormalizedCitation \<Rightarrow> int" where
  "lexical_int originalQuery r =
     (if str_includes (toLowerCase (title r)) (toLowerCase originalQuery) then 10 else 0)
     + 3 * int (count_matches (toLowerCase (title r)) (query_terms (toLowerCase originalQuery)))
     + (if str_includes (toLowerCase (abstract r)) (toLowerCase originalQuery) then 5 else 0)
     + int (count_matches (toLowerCase (abstract r)) (query_terms (toLowerCase originalQuery)))"

definition bonus_value :: "int \<Rightarrow> NormalizedCitation \<Rightarrow> real" where
  "bonus_value currentYear r =
     (if recent currentYear (year r) then 3 else 0)
     + (if source r = ''Semantic Scholar'' then 1/2 else 0)"

definition citation_part :: "(real \<Rightarrow> real) \<Rightarrow> NormalizedCitation \<Rightarrow> real" where
  "citation_part impl r = js_mul (Math_log impl (js_add (real (citationCount r)) 1)) 0.5"

definition bonuses :: "int \<Rightarrow> NormalizedCitation \<Rightarrow> real \<Rightarrow> real" where
  "bonuses currentYear r score5 =
     (let score6 = (if recent currentYear (year r) then js_add score5 3 else score5)
      in if source r = ''Semantic Scholar'' then js_add score6 0.5 else score6)"

subsection \<open>The request handler\<close>

text \<open>
  The outcome of one promise of \<^verbatim>\<open>Promise.allSettled\<close>.
\<close>

datatype 'a settled = Fulfilled 'a | Rejected

text \<open>
  What the AI gateway answers to the expansion request: \<open>GatewayError\<close> when
  \<^verbatim>\<open>fetch\<close> throws, the status is not ok or the payload has no \<^verbatim>\<open>choices\<close> array;
  otherwise the value of \<^verbatim>\<open>data.choices[0]?.message?.content\<close>, \<open>None\<close> when a link
  of the chain is missing.
\<close>

datatype gateway_reply = GatewayError | GatewayContent "string option"

text \<open>
  \<^verbatim>\<open>expandQuery\<close>: every failure returns the query, and so does a content that is
  empty after \<^verbatim>\<open>trim\<close>.
\<close>

definition expandQuery :: "gateway_reply \<Rightarrow> string \<Rightarrow> string" where
  "expandQuery reply query =
     (case reply of
        GatewayError \<Rightarrow> query
      | GatewayContent None \<Rightarrow> query
      | GatewayContent (Some content) \<Rightarrow> if trim content \<noteq> [] then trim content else query)"

text \<open>
  The request: its method, and the object \<^verbatim>\<open>await req.json()\<close> yields, \<open>None\<close> when
  the body is not JSON or cannot be destructured. \<open>query\<close> and \<open>userId\<close> are strings
  when present.
\<close>

record request_json =
  query :: "string option"
  userId :: "string option"

record request =
  req_method :: string
  req_json :: "request_json option"

text \<open>
  The environment of one request: the three environment variables, the replies of the
  AI gateway (to an API key and a query) and of the two provider searches (to a query),
  the wall clock's year and the engine's implementation of the logarithm. \<^verbatim>\<open>searchSemanticScholar\<close> and \<^verbatim>\<open>searchCrossRef\<close> are
  taken by their settled outcome: the list they build from the provider's answer, the
  empty list on every failure they catch.
\<close>

record environment =
  LOVABLE_API_KEY :: "string option"
  SUPABASE_URL :: "string option"
  SUPABASE_SERVICE_ROLE_KEY :: "string option"
  gateway :: "string \<Rightarrow> string \<Rightarrow> gateway_reply"
  searchSemanticScholar :: "string \<Rightarrow> NormalizedCitation list settled"
  searchCrossRef :: "string \<Rightarrow> NormalizedCitation list settled"
  currentYear :: int
  log_impl :: "real \<Rightarrow> real"

text \<open>The calls the handler makes, in the order it makes them.\<close>

datatype event =
    CallExpandQuery string
  | CallSearchSemanticScholar string
  | CallSearchCrossRef string
  | CallDeduplicateResults
  | CallRankResults
  | InsertSearchHistory string string string "ScoredCitation list"

datatype response_body =
    NoBody
  | QueryRequired
  | NoResultsFound string string
  | SearchResults string string "ScoredCitation list" nat
  | InternalError

record response =
  status :: nat
  body :: response_body

text \<open>A string value is truthy when it is present and not empty.\<close>

definition truthy :: "string option \<Rightarrow> bool" where
  "truthy v = (case v of None \<Rightarrow> False | Some s \<Rightarrow> s \<noteq> [])"

text \<open>Step 1: the query the providers are asked, and the call made for it.\<close>

definition expansion :: "environment \<Rightarrow> string \<Rightarrow> string \<times> event list" where
  "expansion env q =
     (case LOVABLE_API_KEY env of
        None \<Rightarrow> (q, [])
      | Some apiKey \<Rightarrow>
          if apiKey \<noteq> [] then (expandQuery (gateway env apiKey q) q, [CallExpandQuery q])
          else (q, []))"

text \<open>
  \<^verbatim>\<open>allResults\<close> after the two \<^verbatim>\<open>push\<close> statements: a fulfilled value is an array,
  which is truthy also when it is empty.
\<close>

definition aggregate ::
  "NormalizedCitation list settled \<Rightarrow> NormalizedCitation list settled \<Rightarrow> NormalizedCitation list"
where
  "aggregate semanticResults crossrefResults =
     (let allResults0 = [];
          allResults1 = (case semanticResults of
                           Fulfilled v \<Rightarrow> allResults0 @ v | Rejected \<Rightarrow> allResults0);
          allResults2 = (case crossrefResults of
                           Fulfilled v \<Rightarrow> allResults1 @ v | Rejected \<Rightarrow> allResults1)
      in allResults2)"

text \<open>
  Step 5: the row inserted into \<^verbatim>\<open>search_history\<close>. A failure of the insert is
  caught and changes nothing.
\<close>

definition store_history ::
  "environment \<Rightarrow> string option \<Rightarrow> string \<Rightarrow> string \<Rightarrow> ScoredCitation list \<Rightarrow> event list"
where
  "store_history env uid q expandedQuery rankedResults =
     (case uid of
        None \<Rightarrow> []
      | Some u \<Rightarrow>
          if u \<noteq> [] \<and> truthy (SUPABASE_URL env) \<and> truthy (SUPABASE_SERVICE_ROLE_KEY env)
          then [InsertSearchHistory u q expandedQuery (take 10 rankedResults)]
          else [])"

text \<open>
  The handler after the validation of the query: steps 1 to 5 and the response.
\<close>

definition search :: "environment \<Rightarrow> string \<Rightarrow> string option \<Rightarrow> response \<times> event list" where
  "search env q uid =
     (let (expandedQuery, t1) = expansion env q;
          semanticResults = searchSemanticScholar env expandedQuery;
          crossrefResults = searchCrossRef env expandedQuery;
          t2 = t1 @ [CallSearchSemanticScholar expandedQuery, CallSearchCrossRef expandedQuery];
          allResults = aggregate semanticResults crossrefResults
      in if length allResults = 0
         then (\<lparr>status = 404, body = NoResultsFound q expandedQuery\<rparr>, t2)
         else
           let uniqueResults = deduplicateResults allResults;
               rankedResults = rankResults (log_impl env) (currentYear env) uniqueResults q;
               t3 = t2 @ [CallDeduplicateResults, CallRankResults];
               t4 = t3 @ store_history env uid q expandedQuery rankedResults
           in (\<lparr>status = 200,
                body = SearchResults q expandedQuery (take 10 rankedResults)
                         (length rankedResults)\<rparr>, t4))"

text \<open>
  The handler given to \<^verbatim>\<open>Deno.serve\<close>: the response and the calls made.
\<close>

definition serve :: "environment \<Rightarrow> request \<Rightarrow> response \<times> event list" where
  "serve env req =
     (if req_method req = ''OPTIONS'' then (\<lparr>status = 200, body = NoBody\<rparr>, [])
      else
        case req_json req of
          None \<Rightarrow> (\<lparr>status = 500, body = InternalError\<rparr>, [])
        | Some js \<Rightarrow>
            (case query js of
               None \<Rightarrow> (\<lparr>status = 400, body = QueryRequired\<rparr>, [])
             | Some q \<Rightarrow>
                 if q = [] then (\<lparr>status = 400, body = QueryRequired\<rparr>, [])
                 else search env q (userId js)))"

text \<open>The records an adapter's outcome adds to \<^verbatim>\<open>allResults\<close>.\<close>

definition pushed :: "'a list settled \<Rightarrow> 'a list" where
  "pushed outcome = (case outcome of Fulfilled v \<Rightarrow> v | Rejected \<Rightarrow> [])"

text \<open>The example record with one citation.\<close>

definition cited_once :: "string \<Rightarrow> NormalizedCitation" where
  "cited_once t = (paper t None)\<lparr>citationCount := 1\<rparr>"

text \<open>
  An example implementation of the logarithm: the correctly rounded one, with the values
  at 1001 and at 2 written out as V8 gives them, \<^verbatim>\<open>0x1.ba2909ce4f864p+2\<close> and
  \<^verbatim>\<open>0x1.62e42fefa39efp-1\<close>.
\<close>

definition example_log :: "real \<Rightarrow> real" where
  "example_log x =
     (if x = 1001 then 7778566362429540 / 2 ^ 50
      else if x = 2 then 6243314768165359 / 2 ^ 53
      else fl (ln x))"

text \<open>
  An example environment, without API key and without history store, whose two provider
  searches settle as given; and a POST request with the given query and user.
\<close>

definition example_env ::
  "NormalizedCitation list settled \<Rightarrow> NormalizedCitation list settled \<Rightarrow> environment" where
  "example_env s c =
     \<lparr>LOVABLE_API_KEY = None, SUPABASE_URL = None, SUPABASE_SERVICE_ROLE_KEY = None,
      gateway = (\<lambda>apiKey q. GatewayError),
      searchSemanticScholar = (\<lambda>q. s), searchCrossRef = (\<lambda>q. c), currentYear = 2026,
      log_impl = example_log\<rparr>"

definition post :: "string option \<Rightarrow> string option \<Rightarrow> request" where
  "post q uid = \<lparr>req_method = ''POST'', req_json = Some \<lparr>query = q, userId = uid\<rparr>\<rparr>"

subsection \<open>Facts about the strings\<close>

lemma str_includes_sublist: "str_includes s t = sublist t s"
  by (induction s) (auto simp: sublist_Cons_right)

lemma split_go_sublist:
  "t \<in> set (split_go cur rest) \<Longrightarrow> sublist t (cur @ rest)"
proof (induction cur rest rule: split_go.induct)
  case (1 cur)
  then show ?case by simp
next
  case (2 cur c cs)
  show ?case
  proof (cases "is_space c")
    case True
    with 2 have "t = cur \<or> t \<in> set (split_go [] (dropWhile is_space cs))"
      by simp
    then show ?thesis
    proof
      assume "t = cur"
      then show ?thesis by (simp add: sublist_append_rightI)
    next
      assume "t \<in> set (split_go [] (dropWhile is_space cs))"
      with 2 True have "sublist t (dropWhile is_space cs)" by simp
      moreover have "suffix (dropWhile is_space cs) (cur @ c # cs)"
        by (meson suffix_dropWhile suffix_order.trans suffix_ConsI suffix_appendI)
      ultimately show ?thesis
        using sublist_order.order_trans suffix_imp_sublist by blast
    qed
  next
    case False
    with 2 show ?thesis by simp
  qed
qed

lemma split_ws_sublist: "t \<in> set (split_ws s) \<Longrightarrow> sublist t s"
  using split_go_sublist [of t "[]" s] by (simp add: split_ws_def)

subsection \<open>Facts about deduplication\<close>

lemma dedup_loop_snoc:
  "dedup_loop (rs @ [r]) seen unique =
     (if dedup_key r \<in> seen \<union> dedup_key ` set rs
      then dedup_loop rs seen unique
      else dedup_loop rs seen unique @ [r])"
  by (induction rs seen unique rule: dedup_loop.induct) (auto simp: Let_def)

lemma deduplicateResults_Nil: "deduplicateResults [] = []"
  by (simp add: deduplicateResults_def)

lemma deduplicateResults_snoc:
  "deduplicateResults (rs @ [r]) =
     (if dedup_key r \<in> dedup_key ` set rs
      then deduplicateResults rs
      else deduplicateResults rs @ [r])"
  by (simp add: deduplicateResults_def dedup_loop_snoc)

lemma nths_cong_below:
  "(\<And>i. i < length xs \<Longrightarrow> (i \<in> A) = (i \<in> B)) \<Longrightarrow> nths xs A = nths xs B"
  unfolding nths_def
  by (rule arg_cong [where f = "map fst"], rule filter_cong) (auto simp: set_zip)

lemma dedup_nths:
  "deduplicateResults rs = nths rs {i. first_occurrence rs i}"
proof (induction rs rule: rev_induct)
  case Nil
  then show ?case by (simp add: deduplicateResults_Nil)
next
  case (snoc r rs)
  have a: "nths rs {i. first_occurrence (rs @ [r]) i} = nths rs {i. first_occurrence rs i}"
    by (rule nths_cong_below) (simp add: first_occurrence_def nth_append)
  have b: "nths [r] {j. j + length rs \<in> {i. first_occurrence (rs @ [r]) i}} =
        (if dedup_key r \<in> dedup_key ` set rs then [] else [r])"
    by (simp add: first_occurrence_def nths_Cons)
  show ?case
    by (simp only: nths_append a b deduplicateResults_snoc snoc.IH split: if_splits) simp
qed

lemma dedup_key_doi: "doi r = Some d \<Longrightarrow> d \<noteq> [] \<Longrightarrow> dedup_key r = d"
  by (simp add: dedup_key_def)

lemma dedup_key_no_doi: "no_doi r \<Longrightarrow> dedup_key r = trim (toLowerCase (title r))"
  by (auto simp: dedup_key_def no_doi_def)

lemma first_occurrence_iff:
  "i < length rs \<Longrightarrow> first_occurrence rs i = (\<forall>j<i. dedup_key (rs ! j) \<noteq> dedup_key (rs ! i))"
proof -
  assume "i < length rs"
  then have "set (take i rs) = nth rs ` {0..<i}"
    by (simp add: nth_image)
  then have "dedup_key ` set (take i rs) = {dedup_key (rs ! j) |j. j < i}"
    by auto
  then show ?thesis
    by (auto simp: first_occurrence_def)
qed

lemma later_duplicate_dropped:
  "i < j \<Longrightarrow> j < length rs \<Longrightarrow> dedup_key (rs ! i) = dedup_key (rs ! j) \<Longrightarrow>
     \<not> first_occurrence rs j"
  by (auto simp: first_occurrence_iff)

lemma key_doi_titled: "dedup_key (paper ''10.1/x'' None) = ''10.1/x''"
  by code_simp
lemma key_foo: "dedup_key (paper ''Foo'' (Some ''10.1/x'')) = ''10.1/x''"
  by code_simp
lemma key_bar: "dedup_key (paper ''Bar'' (Some ''10.1/x'')) = ''10.1/x''"
  by code_simp
lemma key_deep: "dedup_key (paper ''Deep Learning'' None) = ''deep learning''"
  by code_simp
lemma key_deep3: "dedup_key (paper ''deep   learning '' None) = ''deep   learning''"
  by code_simp
lemma norm_deep: "trim (toLowerCase ''Deep Learning'') = ''deep learning''"
  by code_simp
lemma norm_deep1: "trim (toLowerCase '' deep learning '') = ''deep learning''"
  by code_simp

subsection \<open>Facts about the numbers\<close>

lemma rne_of_int [simp]: "rne (of_int n) = n"
  by (simp add: rne_def)

lemma rne_lower: "of_int (rne x) \<ge> x - 1/2"
  unfolding rne_def Let_def by (auto; linarith)

lemma rne_upper: "of_int (rne x) \<le> x + 1/2"
  unfolding rne_def Let_def by (auto; linarith)

lemma rne_mono: "x \<le> y \<Longrightarrow> rne x \<le> rne y"
proof -
  assume xy: "x \<le> y"
  then have f: "\<lfloor>x\<rfloor> \<le> \<lfloor>y\<rfloor>" by (rule floor_mono)
  show ?thesis
  proof (cases "\<lfloor>x\<rfloor> = \<lfloor>y\<rfloor>")
    case True
    with xy show ?thesis
      unfolding rne_def Let_def by auto
  next
    case False
    with f have "\<lfloor>x\<rfloor> + 1 \<le> \<lfloor>y\<rfloor>" by simp
    moreover have "rne x \<le> \<lfloor>x\<rfloor> + 1" unfolding rne_def Let_def by auto
    moreover have "\<lfloor>y\<rfloor> \<le> rne y" unfolding rne_def Let_def by auto
    ultimately show ?thesis by linarith
  qed
qed

lemma ulp_pos [simp]: "0 < ulp x"
  by (simp add: ulp_def)

lemma rne_0 [simp]: "rne 0 = 0"
  using rne_of_int [of 0] by simp

lemma ulp_nonneg [simp]: "0 \<le> ulp x"
  by (simp add: ulp_def)

lemma ulp_neq_0 [simp]: "ulp x \<noteq> 0"
  by (simp add: ulp_def)

lemma fl_0 [simp]: "fl 0 = 0"
  by (simp add: fl_def)

lemma powr_int_nonneg: "0 \<le> d \<Longrightarrow> (2::real) powr (of_int d) = of_int (2 ^ nat d)"
  by (simp add: powr_int)

lemma two_powr_add_int:
  "(2::real) powr (of_int (a + b)) = 2 powr (of_int a) * 2 powr (of_int b)"
  by (simp add: powr_add)

lemma two_powr_nat: "(2::real) powr (of_int (int n)) = 2 ^ n"
  by (simp add: powr_realpow)

lemma pow2_times_ulp: "2 ^ n * ulp x = 2 powr (of_int (expo x - 52 + int n))"
  unfolding ulp_def two_powr_add_int two_powr_nat by simp

lemma powr_div_ulp: "2 powr (of_int (expo x - 52 + int n)) / ulp x = 2 ^ n"
  using pow2_times_ulp [of n x, symmetric] by simp

lemma floor_log2_le: "0 < x \<Longrightarrow> x < 2 powr (of_int k) \<Longrightarrow> \<lfloor>log 2 x\<rfloor> < k"
proof -
  assume "0 < x" and "x < 2 powr (of_int k)"
  then have "log 2 x < of_int k"
    by (simp add: log_less_iff)
  then show ?thesis
    by (simp add: floor_less_iff)
qed

lemma powr_floor_log2_le: "0 < x \<Longrightarrow> 2 powr (of_int \<lfloor>log 2 x\<rfloor>) \<le> x"
proof -
  assume "0 < x"
  have "(2::real) powr (of_int \<lfloor>log 2 x\<rfloor>) \<le> 2 powr (log 2 x)"
    by (intro powr_mono) simp_all
  with \<open>0 < x\<close> show ?thesis
    by simp
qed

lemma less_powr_floor_log2: "0 < x \<Longrightarrow> x < 2 powr (of_int (\<lfloor>log 2 x\<rfloor> + 1))"
proof -
  assume "0 < x"
  have "log 2 x < of_int (\<lfloor>log 2 x\<rfloor> + 1)" by linarith
  with \<open>0 < x\<close> show ?thesis
    by (simp add: log_less_iff del: of_int_add)
qed

lemma fl_exact:
  assumes "\<bar>m\<bar> < 2 ^ 53" and "- 1074 \<le> e"
  shows "fl (of_int m * 2 powr (of_int e)) = of_int m * 2 powr (of_int e)"
proof (cases "m = 0")
  case True
  then show ?thesis by simp
next
  case False
  define x :: real where "x = of_int m * 2 powr (of_int e)"
  have pos: "0 < \<bar>x\<bar>" using False by (simp add: x_def)
  have "\<bar>x\<bar> = of_int \<bar>m\<bar> * 2 powr (of_int e)"
    by (simp add: x_def abs_mult)
  also have "\<dots> < 2 ^ 53 * 2 powr (of_int e)"
  proof -
    have "(of_int \<bar>m\<bar> :: real) < of_int (2 ^ 53)"
      using assms(1) by (simp only: of_int_less_iff)
    then have "(of_int \<bar>m\<bar> :: real) < 2 ^ 53"
      by simp
    then show ?thesis
      by (intro mult_strict_right_mono) simp_all
  qed
  also have "\<dots> = 2 powr (of_int (53 + e))"
    by (simp add: powr_add)
  finally have "\<lfloor>log 2 \<bar>x\<bar>\<rfloor> < 53 + e"
    using pos by (intro floor_log2_le)
  then have "expo x - 52 \<le> e"
    using assms(2) by (simp add: expo_def)
  then obtain d where d: "0 \<le> d" "e = (expo x - 52) + d"
    by (metis add.commute diff_ge_0_iff_ge diff_add_cancel)
  have p: "(2::real) powr (of_int e) = ulp x * 2 powr (of_int d)"
    by (simp only: ulp_def d(2) two_powr_add_int)
  have xe: "x = of_int m * (ulp x * 2 powr (of_int d))"
    using x_def p by simp
  then have "x / ulp x = of_int m * (ulp x * 2 powr (of_int d)) / ulp x"
    by simp
  also have "\<dots> = of_int m * 2 powr (of_int d)"
    by simp
  also have "\<dots> = of_int (m * 2 ^ nat d)"
    using d(1) by (simp add: powr_int_nonneg)
  finally have r: "rne (x / ulp x) = m * 2 ^ nat d"
    by (simp only: rne_of_int)
  have "fl x = of_int (m * 2 ^ nat d) * ulp x"
    unfolding fl_def r ..
  also have "\<dots> = of_int m * (ulp x * 2 powr (of_int d))"
    using d(1) by (simp add: powr_int_nonneg)
  also have "\<dots> = x"
    using xe by simp
  finally show ?thesis
    by (simp only: x_def)
qed

lemma fl_int: "\<bar>n\<bar> < 2 ^ 53 \<Longrightarrow> fl (of_int n) = of_int n"
  using fl_exact [of n 0] by simp

lemma fl_half_int: "\<bar>n\<bar> < 2 ^ 53 \<Longrightarrow> fl (of_int n / 2) = of_int n / 2"
  using fl_exact [of n "-1"] by (simp add: powr_minus field_simps)

lemma fl_nonneg: "0 \<le> x \<Longrightarrow> 0 \<le> fl x"
proof -
  assume "0 \<le> x"
  then have "rne 0 \<le> rne (x / ulp x)"
    by (intro rne_mono) simp
  then show ?thesis
    by (simp add: fl_def)
qed

lemma expo_mono: "0 < x \<Longrightarrow> x \<le> y \<Longrightarrow> expo x \<le> expo y"
  unfolding expo_def by (intro max.mono floor_mono) simp_all

lemma fl_mono_nonneg:
  assumes "0 \<le> x" and "x \<le> y"
  shows "fl x \<le> fl y"
proof (cases "x = 0")
  case True
  with assms fl_nonneg show ?thesis by simp
next
  case False
  with assms have x: "0 < x" and y: "0 < y" by simp_all
  have le: "expo x \<le> expo y"
    using x assms(2) by (rule expo_mono)
  show ?thesis
  proof (cases "expo x = expo y")
    case True
    then have u: "ulp x = ulp y" by (simp add: ulp_def)
    have "x / ulp y \<le> y / ulp y"
      using assms(2) by (simp add: divide_right_mono)
    then have "rne (x / ulp y) \<le> rne (y / ulp y)" by (rule rne_mono)
    then show ?thesis
      by (simp add: fl_def u mult_right_mono)
  next
    case False
    with le have lt: "expo x < expo y" by simp
    then have ey: "expo y = \<lfloor>log 2 y\<rfloor>"
      using y by (auto simp: expo_def max_def split: if_splits)
    have "\<lfloor>log 2 x\<rfloor> \<le> expo x"
      using x by (simp add: expo_def)
    then have "2 powr (of_int (\<lfloor>log 2 x\<rfloor> + 1)) \<le> (2::real) powr (of_int (expo x + 1))"
      by (simp del: of_int_add)
    with less_powr_floor_log2 [OF x] have xlt: "x < 2 powr (of_int (expo x + 1))"
      by linarith
    have "x / ulp x \<le> 2 powr (of_int (expo x + 1)) / ulp x"
      using xlt by (simp add: divide_right_mono)
    also have "\<dots> = of_int (2 ^ 53)"
      using powr_div_ulp [of x 53] by (simp add: add.commute)
    finally have "rne (x / ulp x) \<le> rne (of_int (2 ^ 53))"
      by (rule rne_mono)
    then have "rne (x / ulp x) \<le> 2 ^ 53"
      by (simp only: rne_of_int)
    then have "fl x \<le> of_int (2 ^ 53) * ulp x"
      unfolding fl_def by (intro mult_right_mono) (simp_all del: of_int_numeral of_int_power)
    also have "\<dots> = 2 powr (of_int (expo x + 1))"
      using pow2_times_ulp [of 53 x] by (simp add: add.commute)
    also have "\<dots> \<le> 2 powr (of_int (expo y))"
      using lt by simp
    finally have a: "fl x \<le> 2 powr (of_int (expo y))" .
    have "2 powr (of_int (expo y)) \<le> y"
      using powr_floor_log2_le [OF y] ey by simp
    then have "2 powr (of_int (expo y)) / ulp y \<le> y / ulp y"
      by (simp add: divide_right_mono)
    moreover have "2 powr (of_int (expo y)) / ulp y = of_int (2 ^ 52)"
      using powr_div_ulp [of y 52] by simp
    ultimately have "rne (of_int (2 ^ 52)) \<le> rne (y / ulp y)"
      by (intro rne_mono) simp
    then have "2 ^ 52 \<le> rne (y / ulp y)"
      by (simp only: rne_of_int)
    then have "of_int (2 ^ 52) * ulp y \<le> fl y"
      unfolding fl_def by (intro mult_right_mono) (simp_all del: of_int_numeral of_int_power)
    moreover have "of_int (2 ^ 52) * ulp y = 2 powr (of_int (expo y))"
      using pow2_times_ulp [of 52 y] by simp
    ultimately show ?thesis using a by linarith
  qed
qed

lemma fl_numeral_int: "fl (of_int n) = of_int n" if "\<bar>n\<bar> < 2 ^ 53" for n
  using that by (rule fl_int)

lemma fl_between:
  assumes "0 \<le> a" and "a \<le> x" and "x \<le> b" and "fl a = a" and "fl b = b"
  shows "a \<le> fl x \<and> fl x \<le> b"
proof -
  have "fl a \<le> fl x" using assms(1,2) by (rule fl_mono_nonneg)
  moreover have "fl x \<le> fl b" using assms(1,2,3) by (intro fl_mono_nonneg) simp_all
  ultimately show ?thesis using assms(4,5) by simp
qed

lemma js_add_half_ints:
  "\<bar>a + b\<bar> < 2 ^ 53 \<Longrightarrow> js_add (of_int a / 2) (of_int b / 2) = of_int (a + b) / 2"
  using fl_half_int [of "a + b"] by (simp add: js_add_def add_divide_distrib)

lemma js_add_ints:
  "\<bar>a + b\<bar> < 2 ^ 53 \<Longrightarrow> js_add (of_int a) (of_int b) = of_int (a + b)"
  using fl_int [of "a + b"] by (simp add: js_add_def)

lemma js_add_0_left: "fl x = x \<Longrightarrow> js_add 0 x = x"
  by (simp add: js_add_def)

lemma js_add_0_right: "fl x = x \<Longrightarrow> js_add x 0 = x"
  by (simp add: js_add_def)

lemma js_add_mono: "0 \<le> x + c \<Longrightarrow> x \<le> y \<Longrightarrow> js_add x c \<le> js_add y c"
  unfolding js_add_def by (intro fl_mono_nonneg) simp_all

lemma js_add_nonneg: "0 \<le> x \<Longrightarrow> 0 \<le> c \<Longrightarrow> 0 \<le> js_add x c"
  unfolding js_add_def by (intro fl_nonneg) simp

lemma expo_eq:
  assumes "2 powr (of_int e) \<le> \<bar>x\<bar>" and "\<bar>x\<bar> < 2 powr (of_int (e + 1))" and "- 1022 \<le> e"
  shows "expo x = e"
proof -
  have "(0::real) < 2 powr (of_int e)" by simp
  with assms(1) have pos: "0 < \<bar>x\<bar>" by linarith
  have "of_int e \<le> log 2 \<bar>x\<bar>"
    using assms(1) pos by (simp add: le_log_iff)
  moreover have "log 2 \<bar>x\<bar> < of_int (e + 1)"
    using assms(2) pos by (simp add: log_less_iff del: of_int_add)
  ultimately have "\<lfloor>log 2 \<bar>x\<bar>\<rfloor> = e"
    by (simp add: floor_eq_iff)
  with assms(3) show ?thesis
    by (simp add: expo_def)
qed

lemma expo_eq_nat:
  assumes "2 ^ n \<le> x" and "x < 2 ^ (n + 1)"
  shows "expo x = int n"
proof -
  have "(0::real) < 2 ^ n" by simp
  with assms(1) have ax: "\<bar>x\<bar> = x" by linarith
  show ?thesis
  proof (rule expo_eq)
    show "2 powr (of_int (int n)) \<le> \<bar>x\<bar>"
      unfolding ax two_powr_nat by (rule assms(1))
    have "(2::real) powr (of_int (int (n + 1))) = 2 ^ (n + 1)"
      by (rule two_powr_nat)
    then show "\<bar>x\<bar> < 2 powr (of_int (int n + 1))"
      using assms(2) ax by (simp add: add.commute)
    show "- 1022 \<le> int n" by simp
  qed
qed

lemma fl_binade_3:
  assumes "8 \<le> x" and "x < 16"
  shows "fl x = of_int (rne (x * 2 ^ 49)) / 2 ^ 49"
proof -
  have "expo x = int 3"
    using assms by (intro expo_eq_nat) simp_all
  then have "2 ^ 49 * ulp x = 2 powr (of_int 0)"
    using pow2_times_ulp [of 49 x] by simp
  then have u: "ulp x = 1 / 2 ^ 49"
    by (simp add: field_simps)
  have "fl x = of_int (rne (x / ulp x)) * ulp x"
    by (rule fl_def)
  also have "\<dots> = of_int (rne (x / (1 / 2 ^ 49))) * (1 / 2 ^ 49)"
    by (simp only: u)
  also have "\<dots> = of_int (rne (x * 2 ^ 49)) / 2 ^ 49"
    by simp
  finally show ?thesis .
qed

lemma rne_example: "rne (186387299862985199 / 32) = 5824603120718287"
  by (simp add: rne_def Let_def)

lemma score_rounded_example:
  "js_add 10 (6243314768165359 / 2 ^ 54) = 5824603120718287 / 2 ^ 49"
proof -
  have "(10::real) + 6243314768165359 / 2 ^ 54 = 186387299862985199 / 2 ^ 54"
    by simp
  moreover have "fl (186387299862985199 / 2 ^ 54) = of_int (rne (186387299862985199 / 2 ^ 54 * 2 ^ 49)) / 2 ^ 49"
    by (intro fl_binade_3) simp_all
  moreover have "(186387299862985199 :: real) / 2 ^ 54 * 2 ^ 49 = 186387299862985199 / 32"
    by simp
  ultimately show ?thesis
    by (simp only: js_add_def rne_example)
qed

subsection \<open>Facts about the score\<close>

lemma with_score_sel [simp]:
  "title (with_score r s) = title r" "authors (with_score r s) = authors r"
  "year (with_score r s) = year r" "abstract (with_score r s) = abstract r"
  "url (with_score r s) = url r" "source (with_score r s) = source r"
  "citationCount (with_score r s) = citationCount r" "doi (with_score r s) = doi r"
  "relevanceScore (with_score r s) = s"
  by (simp_all add: with_score_def)

lemma scored_fields_with_score [simp]: "scored_fields (with_score r s) = citation_fields r"
  by (simp add: scored_fields_def citation_fields_def)

lemma add_term_matches_replicate:
  "add_term_matches text w ts s = foldl js_add s (replicate (count_matches text ts) w)"
  unfolding add_term_matches_def count_matches_def
  by (induction ts arbitrary: s) simp_all

lemma recent_after_year_5:
  "5 < cy \<Longrightarrow> recent cy y = (case y of None \<Rightarrow> False | Some n \<Rightarrow> cy - n \<le> 5)"
  by (auto simp: recent_def split: option.splits)

lemma score_for_parts:
  "score_for impl cy q r = bonuses cy r (js_add (lexical q r) (citation_part impl r))"
  by (simp add: score_for_def score_result_def lexical_def citation_part_def bonuses_def Let_def)

lemma score_for_sum: "5 < cy \<Longrightarrow> score_for impl cy q r = score_sum impl cy q r"
  by (simp add: score_for_def score_result_def score_sum_def contributions_def Let_def
      add_term_matches_replicate recent_after_year_5 split: option.splits)

lemma rankResults_scored:
  "rankResults impl cy rs q = sort_key (\<lambda>a. - relevanceScore a) (scored impl cy q rs)"
  by (simp add: rankResults_def scored_def score_for_def Let_def)

lemma descending_sorted: "descending xs = sorted (map (\<lambda>a. - relevanceScore a) xs)"
  by (simp add: descending_def sorted_map)

lemma length_rankResults: "length (rankResults impl cy rs q) = length rs"
  by (simp add: rankResults_scored scored_def)

lemma rank_fields_scores:
  "mset (map (\<lambda>a. (scored_fields a, relevanceScore a)) (rankResults impl cy rs q))
     = mset (map (\<lambda>r. (citation_fields r, score_for impl cy q r)) rs)"
proof -
  have "mset (map (\<lambda>a. (scored_fields a, relevanceScore a)) (rankResults impl cy rs q))
      = image_mset (\<lambda>a. (scored_fields a, relevanceScore a)) (mset (scored impl cy q rs))"
    by (simp add: rankResults_scored)
  also have "\<dots> = mset (map (\<lambda>a. (scored_fields a, relevanceScore a)) (scored impl cy q rs))"
    by simp
  also have "map (\<lambda>a. (scored_fields a, relevanceScore a)) (scored impl cy q rs)
      = map (\<lambda>r. (citation_fields r, score_for impl cy q r)) rs"
    by (simp add: scored_def)
  finally show ?thesis .
qed

lemma rankResults_pair_swap:
  "score_for impl cy q x < score_for impl cy q y \<Longrightarrow>
     rankResults impl cy [x, y] q
       = [with_score y (score_for impl cy q y), with_score x (score_for impl cy q x)]"
  by (simp add: rankResults_scored scored_def)

lemma add_term_matches_int:
  "0 \<le> n \<Longrightarrow> 0 \<le> w \<Longrightarrow> n + w * int (length ts) < 2 ^ 53 \<Longrightarrow>
     add_term_matches text (of_int w) ts (of_int n)
       = of_int (n + w * int (count_matches text ts))"
proof (induction ts arbitrary: n)
  case Nil
  then show ?case by (simp add: add_term_matches_def count_matches_def)
next
  case (Cons t ts)
  have step: "add_term_matches text (of_int w) (t # ts) (of_int n)
      = add_term_matches text (of_int w) ts
          (if str_includes text t then js_add (of_int n) (of_int w) else of_int n)"
    by (simp add: add_term_matches_def)
  show ?case
  proof (cases "str_includes text t")
    case True
    have b: "n + w * int (length ts) + w < 2 ^ 53"
      using Cons.prems by (simp add: algebra_simps)
    have "0 \<le> w * int (length ts)" using Cons.prems by simp
    with b Cons.prems have "\<bar>n + w\<bar> < 2 ^ 53" by linarith
    then have "js_add (of_int n) (of_int w) = of_int (n + w)"
      by (rule js_add_ints)
    moreover have "add_term_matches text (of_int w) ts (of_int (n + w))
        = of_int (n + w + w * int (count_matches text ts))"
      using Cons.prems b by (intro Cons.IH) (simp_all add: algebra_simps)
    ultimately show ?thesis
      using True step by (simp add: count_matches_def algebra_simps)
  next
    case False
    have "0 \<le> w" using Cons.prems by simp
    then have "n + w * int (length ts) \<le> n + w * int (length (t # ts))"
      by (simp add: algebra_simps)
    then have "add_term_matches text (of_int w) ts (of_int n)
        = of_int (n + w * int (count_matches text ts))"
      using Cons.prems by (intro Cons.IH) simp_all
    then show ?thesis
      using False step by (simp add: count_matches_def)
  qed
qed

lemma count_matches_le: "count_matches text ts \<le> length ts"
  by (simp add: count_matches_def)

lemma lexical_exact:
  assumes "4 * int (length (query_terms (toLowerCase q))) + 15 < 2 ^ 53"
  shows "lexical q r = of_int (lexical_int q r)"
proof -
  let ?ts = "query_terms (toLowerCase q)"
  let ?tl = "toLowerCase (title r)"
  let ?al = "toLowerCase (abstract r)"
  let ?k1 = "int (count_matches ?tl ?ts)"
  let ?k2 = "int (count_matches ?al ?ts)"
  define n1 :: int where "n1 = (if str_includes ?tl (toLowerCase q) then 10 else 0)"
  define n3 :: int where "n3 = (if str_includes ?al (toLowerCase q) then 5 else 0)"
  have k1: "?k1 \<le> int (length ?ts)" and k2: "?k2 \<le> int (length ?ts)"
    by (simp_all add: count_matches_le)
  have n1: "0 \<le> n1" "n1 \<le> 10" and n3: "0 \<le> n3" "n3 \<le> 5"
    by (simp_all add: n1_def n3_def)
  have s1: "(if str_includes ?tl (toLowerCase q) then js_add 0 10 else 0) = of_int n1"
    using js_add_ints [of 0 10] by (simp add: n1_def)
  have s2: "add_term_matches ?tl 3 ?ts (of_int n1) = of_int (n1 + 3 * ?k1)"
    using add_term_matches_int [of n1 3 ?ts ?tl] n1 assms by simp
  have "\<bar>n1 + 3 * ?k1 + 5\<bar> < 2 ^ 53"
    using n1 k1 assms by linarith
  then have "js_add (of_int (n1 + 3 * ?k1)) (of_int 5) = of_int (n1 + 3 * ?k1 + 5)"
    by (rule js_add_ints)
  then have s3: "(if str_includes ?al (toLowerCase q)
        then js_add (of_int (n1 + 3 * ?k1)) 5 else of_int (n1 + 3 * ?k1))
      = of_int (n1 + 3 * ?k1 + n3)"
    by (simp add: n3_def)
  have s4: "add_term_matches ?al 1 ?ts (of_int (n1 + 3 * ?k1 + n3))
      = of_int (n1 + 3 * ?k1 + n3 + 1 * ?k2)"
    using add_term_matches_int [of "n1 + 3 * ?k1 + n3" 1 ?ts ?al] n1 n3 k1 assms by simp
  have "lexical q r = of_int (n1 + 3 * ?k1 + n3 + 1 * ?k2)"
    unfolding lexical_def Let_def s1 s2 s3 s4 ..
  then show ?thesis
    by (simp add: lexical_int_def n1_def n3_def)
qed

lemma lexical_int_bounds:
  "0 \<le> lexical_int q r"
  "lexical_int q r \<le> 4 * int (length (query_terms (toLowerCase q))) + 15"
  using count_matches_le [of "toLowerCase (title r)" "query_terms (toLowerCase q)"]
    count_matches_le [of "toLowerCase (abstract r)" "query_terms (toLowerCase q)"]
  by (simp_all add: lexical_int_def)

lemma bonuses_int:
  assumes "0 \<le> n" and "n < 2 ^ 51"
  shows "bonuses cy r (of_int n) = of_int n + bonus_value cy r"
proof -
  have a: "js_add (of_int n) 3 = of_int (n + 3)"
    using js_add_ints [of n 3] assms by simp
  have b: "js_add (of_int m) 0.5 = of_int m + 1/2" if "0 \<le> m" "m < 2 ^ 52 - 1" for m
    using js_add_half_ints [of "2 * m" 1] that by (simp add: add_divide_distrib)
  have b1: "js_add (of_int n) 0.5 = of_int n + 1/2"
    using assms by (intro b) simp_all
  have b2: "js_add (of_int (n + 3)) 0.5 = of_int (n + 3) + 1/2"
    using assms by (intro b) simp_all
  show ?thesis
    using a b1 b2 by (simp add: bonuses_def bonus_value_def Let_def)
qed

lemma bonuses_mono:
  assumes "0 \<le> x" and "x \<le> y"
  shows "bonuses cy r x \<le> bonuses cy r y"
proof -
  have a: "js_add x 3 \<le> js_add y 3"
    using assms by (intro js_add_mono) simp_all
  have a0: "0 \<le> js_add x 3"
    using assms by (intro js_add_nonneg) simp_all
  have b: "js_add u 0.5 \<le> js_add v 0.5" if "0 \<le> u" "u \<le> v" for u v
    using that by (intro js_add_mono) simp_all
  show ?thesis
    using assms a a0 b [of x y] b [of "js_add x 3" "js_add y 3"]
    by (simp add: bonuses_def Let_def)
qed

lemma bonuses_same:
  "year a = year b \<Longrightarrow> source a = source b \<Longrightarrow> bonuses cy a = bonuses cy b"
  by (rule ext) (simp add: bonuses_def)

lemma citation_part_same:
  "citationCount a = citationCount b \<Longrightarrow> citation_part impl a = citation_part impl b"
  by (simp add: citation_part_def)

lemma js_mul_half_bounds:
  assumes "0 \<le> m" and "m \<le> 1024"
  shows "0 \<le> js_mul m 0.5 \<and> js_mul m 0.5 \<le> 512"
proof -
  have "fl 512 = 512" using fl_int [of 512] by simp
  moreover have "fl 0 = 0" by simp
  ultimately show ?thesis
    using fl_between [of 0 "m * 0.5" 512] assms by (simp add: js_mul_def)
qed

lemma fl_int_numeral: "0 \<le> n \<Longrightarrow> n < 9007199254740992 \<Longrightarrow> fl (of_int n) = of_int n"
  by (intro fl_int) simp

lemma bonuses_int_numeral:
  "0 \<le> n \<Longrightarrow> n < 2251799813685248 \<Longrightarrow> bonuses cy r (of_int n) = of_int n + bonus_value cy r"
  by (intro bonuses_int) simp_all

lemma margin:
  fixes ia ib :: int and l :: real
  assumes "0 \<le> ib" and "ib \<le> ia" and "ia < 2 ^ 50" and "0 \<le> l" and "l \<le> 512"
  shows "bonuses cy r (js_add (of_int ib) l) + of_int (ia - ib) - 1
           \<le> bonuses cy r (js_add (of_int ia) l)"
proof -
  let ?c = "ib + \<lceil>l\<rceil>"
  let ?f = "ia + \<lfloor>l\<rfloor>"
  have ia: "ia < 1125899906842624"
    using assms(3) by simp
  have l0: "0 \<le> \<lfloor>l\<rfloor>"
    using assms(4) by simp
  have l1: "\<lceil>l\<rceil> \<le> 512"
    using assms(5) by (simp add: ceiling_le_iff)
  have l2: "\<lceil>l\<rceil> \<le> \<lfloor>l\<rfloor> + 1"
    by (simp add: ceiling_altdef)
  have l3: "\<lfloor>l\<rfloor> \<le> 512"
    using l1 floor_le_ceiling [of l] by linarith
  have l4: "0 \<le> \<lceil>l\<rceil>"
    using l0 floor_le_ceiling [of l] by linarith
  have cexact: "fl (of_int ?c) = of_int ?c"
    using assms(1,2) ia l1 l4 by (intro fl_int_numeral) linarith+
  have fexact: "fl (of_int ?f) = of_int ?f"
    using assms(1,2) ia l0 l3 by (intro fl_int_numeral) linarith+
  have "0 \<le> of_int ib + l"
    using assms(1,4) by simp
  moreover have "of_int ib + l \<le> of_int ?c"
    by simp
  ultimately have "js_add (of_int ib) l \<le> fl (of_int ?c)"
    unfolding js_add_def by (rule fl_mono_nonneg)
  then have up: "js_add (of_int ib) l \<le> of_int ?c"
    using cexact by simp
  have "(0::real) \<le> of_int ?f"
    using assms(1,2) l0 by simp
  moreover have "of_int ?f \<le> of_int ia + l"
    by simp
  ultimately have "fl (of_int ?f) \<le> js_add (of_int ia) l"
    unfolding js_add_def by (rule fl_mono_nonneg)
  then have low: "of_int ?f \<le> js_add (of_int ia) l"
    using fexact by simp
  have nb: "0 \<le> js_add (of_int ib) l"
    using assms(1,4) by (intro js_add_nonneg) simp_all
  have "bonuses cy r (js_add (of_int ib) l) \<le> bonuses cy r (of_int ?c)"
    using nb up by (rule bonuses_mono)
  also have "\<dots> = of_int ?c + bonus_value cy r"
    using assms(1,2) ia l1 l4 by (intro bonuses_int_numeral) linarith+
  finally have b: "bonuses cy r (js_add (of_int ib) l) \<le> of_int ?c + bonus_value cy r" .
  have "of_int ?f + bonus_value cy r = bonuses cy r (of_int ?f)"
    using assms(1,2) ia l0 l3 by (intro bonuses_int_numeral [symmetric]) linarith+
  also have "\<dots> \<le> bonuses cy r (js_add (of_int ia) l)"
    using assms(1,2) l0 low by (intro bonuses_mono) simp_all
  finally have a: "of_int ?f + bonus_value cy r \<le> bonuses cy r (js_add (of_int ia) l)" .
  have "(of_int ?c :: real) \<le> of_int (ib + \<lfloor>l\<rfloor> + 1)"
    using l2 by (simp only: of_int_le_iff)
  then have "(of_int ?c :: real) + of_int (ia - ib) - 1 \<le> of_int ?f"
    by simp
  with a b show ?thesis by linarith
qed

lemma sum_length_split_go:
  "sum_list (map length (split_go cur rest)) \<le> length cur + length rest"
proof (induction cur rest rule: split_go.induct)
  case (1 cur)
  then show ?case by simp
next
  case (2 cur c cs)
  show ?case
  proof (cases "is_space c")
    case True
    with 2 have "sum_list (map length (split_go [] (dropWhile is_space cs)))
        \<le> length (dropWhile is_space cs)"
      by simp
    also have "\<dots> \<le> length cs"
      by (rule length_dropWhile_le)
    finally show ?thesis
      using True by simp
  next
    case False
    with 2 show ?thesis by simp
  qed
qed

lemma length_filter_long: "length (filter (\<lambda>t. length t > 2) xs) \<le> sum_list (map length xs)"
  by (induction xs) auto

lemma length_query_terms: "length (query_terms (toLowerCase q)) \<le> length q"
proof -
  have "length (query_terms (toLowerCase q))
      \<le> sum_list (map length (split_go [] (toLowerCase q)))"
    unfolding query_terms_def split_ws_def by (rule length_filter_long)
  also have "\<dots> \<le> length (toLowerCase q)"
    using sum_length_split_go [of "[]" "toLowerCase q"] by simp
  finally show ?thesis
    by (simp add: toLowerCase_def)
qed

lemma term_in_query:
  "t \<in> set (query_terms ql) \<Longrightarrow> str_includes s ql \<Longrightarrow> str_includes s t"
proof -
  assume "t \<in> set (query_terms ql)" and "str_includes s ql"
  then have "sublist t ql" and "sublist ql s"
    by (simp_all add: query_terms_def split_ws_sublist str_includes_sublist)
  then show ?thesis
    using sublist_order.order_trans by (simp add: str_includes_sublist)
qed

lemma count_matches_all:
  "\<forall>t \<in> set ts. str_includes text t \<Longrightarrow> count_matches text ts = length ts"
  by (simp add: count_matches_def)

lemma count_matches_none:
  "\<forall>t \<in> set ts. \<not> str_includes text t \<Longrightarrow> count_matches text ts = 0"
  by (simp add: count_matches_def filter_empty_conv)

lemma add_term_matches_none:
  "\<forall>t \<in> set ts. \<not> str_includes text t \<Longrightarrow> add_term_matches text w ts s = s"
  by (simp add: add_term_matches_replicate count_matches_none)

lemma title_margin:
  fixes a b :: NormalizedCitation
  assumes "abstract a = abstract b"
    and "str_includes (toLowerCase (title a)) (toLowerCase q)"
    and "\<forall>t \<in> set (query_terms (toLowerCase q)). \<not> str_includes (toLowerCase (title b)) t"
    and "query_terms (toLowerCase q) \<noteq> []"
  shows "lexical_int q a = lexical_int q b + 10 + 3 * int (length (query_terms (toLowerCase q)))"
proof -
  let ?ts = "query_terms (toLowerCase q)"
  obtain t where t: "t \<in> set ?ts"
    using assms(4) by (cases ?ts) auto
  with assms(3) have "\<not> str_includes (toLowerCase (title b)) t" by simp
  with t have nb: "\<not> str_includes (toLowerCase (title b)) (toLowerCase q)"
    using term_in_query by blast
  have "\<forall>t \<in> set ?ts. str_includes (toLowerCase (title a)) t"
    using assms(2) term_in_query by blast
  then have ca: "count_matches (toLowerCase (title a)) ?ts = length ?ts"
    by (rule count_matches_all)
  have cb: "count_matches (toLowerCase (title b)) ?ts = 0"
    using assms(3) by (rule count_matches_none)
  show ?thesis
    using assms(1,2) nb ca cb by (simp add: lexical_int_def)
qed

lemma score_margin:
  fixes a b :: NormalizedCitation
  assumes "abstract a = abstract b" and "citationCount a = citationCount b"
    and "year a = year b" and "source a = source b"
    and "str_includes (toLowerCase (title a)) (toLowerCase q)"
    and "\<forall>t \<in> set (query_terms (toLowerCase q)). \<not> str_includes (toLowerCase (title b)) t"
    and "query_terms (toLowerCase q) \<noteq> []"
    and "length q < 2 ^ 32"
    and "0 \<le> Math_log impl (js_add (real (citationCount a)) 1)"
    and "Math_log impl (js_add (real (citationCount a)) 1) \<le> 1024"
  shows "score_for impl cy q b + 12 \<le> score_for impl cy q a"
proof -
  let ?ts = "query_terms (toLowerCase q)"
  let ?k = "int (length ?ts)"
  have "length ?ts \<le> length q" by (rule length_query_terms)
  with assms(8) have "length ?ts < 2 ^ 32" by simp
  then have "?k < int (2 ^ 32)" by (simp only: of_nat_less_iff)
  then have k: "?k < 4294967296" by simp
  have k1: "1 \<le> ?k"
    using assms(7) by (cases ?ts) simp_all
  have ex: "4 * ?k + 15 < 2 ^ 53"
    using k by simp
  have la: "lexical q a = of_int (lexical_int q a)" and lb: "lexical q b = of_int (lexical_int q b)"
    using ex by (rule lexical_exact)+
  have m: "lexical_int q a = lexical_int q b + 10 + 3 * ?k"
    using assms(1,5,6,7) by (rule title_margin)
  have ib0: "0 \<le> lexical_int q b" by (rule lexical_int_bounds)
  have "lexical_int q a \<le> 4 * ?k + 15" by (rule lexical_int_bounds)
  with k have "lexical_int q a < 1125899906842624" by linarith
  then have ia: "lexical_int q a < 2 ^ 50" by simp
  define l where "l = citation_part impl a"
  have l: "0 \<le> l \<and> l \<le> 512"
    unfolding l_def citation_part_def using assms(9,10) by (rule js_mul_half_bounds)
  have lb': "citation_part impl b = l"
    using assms(2) by (simp add: l_def citation_part_def)
  have bs: "bonuses cy a = bonuses cy b"
    using assms(3,4) by (rule bonuses_same)
  have "bonuses cy b (js_add (of_int (lexical_int q b)) l)
        + of_int (lexical_int q a - lexical_int q b) - 1
      \<le> bonuses cy b (js_add (of_int (lexical_int q a)) l)"
    using ib0 m k1 ia l by (intro margin) simp_all
  moreover have "score_for impl cy q b = bonuses cy b (js_add (of_int (lexical_int q b)) l)"
    by (simp add: score_for_parts lb lb')
  moreover have "score_for impl cy q a = bonuses cy b (js_add (of_int (lexical_int q a)) l)"
    by (simp add: score_for_parts la l_def bs)
  moreover have "(12::real) \<le> of_int (lexical_int q a - lexical_int q b) - 1"
    using m k1 by simp
  ultimately show ?thesis by linarith
qed

lemma fl_dyadic: "\<bar>m\<bar> < 2 ^ 53 \<Longrightarrow> n \<le> 1074 \<Longrightarrow> fl (of_int m / 2 ^ n) = of_int m / 2 ^ n"
proof -
  assume m: "\<bar>m\<bar> < 2 ^ 53" and n: "n \<le> 1074"
  have "(2::real) powr (of_int (- int n)) = 1 / 2 ^ n"
    by (simp add: powr_minus powr_realpow divide_inverse)
  moreover have "fl (of_int m * 2 powr (of_int (- int n))) = of_int m * 2 powr (of_int (- int n))"
    using m n by (intro fl_exact) simp_all
  ultimately show ?thesis by simp
qed

lemma even_dyadic_exact:
  assumes "even n" and "0 \<le> n" and "n < 2 ^ 54"
  shows "fl (of_int n / 2 ^ 51) = of_int n / 2 ^ 51"
proof -
  from assms(1) obtain j where j: "n = 2 * j" by (elim evenE)
  with assms(2,3) have "\<bar>j\<bar> < 2 ^ 53" by simp
  then have "fl (of_int j / 2 ^ 50) = of_int j / 2 ^ 50"
    by (intro fl_dyadic) simp_all
  moreover have "(of_int n :: real) / 2 ^ 51 = of_int j / 2 ^ 50"
    by (simp add: j)
  ultimately show ?thesis by simp
qed

lemma js_add_between:
  assumes "even a" and "even b" and "even c" and "0 \<le> a" and "0 \<le> c" and "b + c < 2 ^ 54"
    and "of_int a / 2 ^ 51 \<le> x" and "x \<le> of_int b / 2 ^ 51"
  shows "of_int (a + c) / 2 ^ 51 \<le> js_add x (of_int c / 2 ^ 51)
       \<and> js_add x (of_int c / 2 ^ 51) \<le> of_int (b + c) / 2 ^ 51"
proof -
  have ab: "(of_int a :: real) \<le> of_int b"
    using assms(7,8) by (simp add: divide_le_cancel)
  then have ab': "a \<le> b" by simp
  have lo: "fl (of_int (a + c) / 2 ^ 51) = of_int (a + c) / 2 ^ 51"
    using assms(1,3,4,5,6) ab' by (intro even_dyadic_exact) simp_all
  have hi: "fl (of_int (b + c) / 2 ^ 51) = of_int (b + c) / 2 ^ 51"
    using assms(2,3,4,5,6) ab' by (intro even_dyadic_exact) simp_all
  have "(0::real) \<le> of_int (a + c) / 2 ^ 51"
    using assms(4,5) by simp
  moreover have "of_int (a + c) / 2 ^ 51 \<le> x + of_int c / 2 ^ 51"
    using assms(7) by (simp add: add_divide_distrib)
  moreover have "x + of_int c / 2 ^ 51 \<le> of_int (b + c) / 2 ^ 51"
    using assms(8) by (simp add: add_divide_distrib)
  ultimately show ?thesis
    unfolding js_add_def using lo hi by (intro fl_between) simp_all
qed

lemma bonuses_between:
  assumes "even a" and "even b" and "0 \<le> a" and "b < 2 ^ 53"
    and "of_int a / 2 ^ 51 \<le> x" and "x \<le> of_int b / 2 ^ 51"
  shows "of_int a / 2 ^ 51 + bonus_value cy r \<le> bonuses cy r x
       \<and> bonuses cy r x \<le> of_int b / 2 ^ 51 + bonus_value cy r"
proof -
  have three: "(3::real) = of_int (3 * 2 ^ 51) / 2 ^ 51" by simp
  have half: "(0.5::real) = of_int (2 ^ 50) / 2 ^ 51" by simp
  have b: "b < 9007199254740992" using assms(4) by simp
  have s3: "of_int (a + 3 * 2 ^ 51) / 2 ^ 51 \<le> js_add x 3
      \<and> js_add x 3 \<le> of_int (b + 3 * 2 ^ 51) / 2 ^ 51"
    unfolding three using assms(1,2,3,5,6) b by (intro js_add_between) simp_all
  have s5: "of_int (a + 2 ^ 50) / 2 ^ 51 \<le> js_add x 0.5
      \<and> js_add x 0.5 \<le> of_int (b + 2 ^ 50) / 2 ^ 51"
    unfolding half using assms(1,2,3,5,6) b by (intro js_add_between) simp_all
  have s35: "of_int (a + 3 * 2 ^ 51 + 2 ^ 50) / 2 ^ 51 \<le> js_add (js_add x 3) 0.5
      \<and> js_add (js_add x 3) 0.5 \<le> of_int (b + 3 * 2 ^ 51 + 2 ^ 50) / 2 ^ 51"
    unfolding half using assms(1,2,3) b s3 by (intro js_add_between) simp_all
  show ?thesis
    using assms(5,6) s3 s5 s35
    by (simp add: bonuses_def bonus_value_def Let_def add_divide_distrib)
qed

lemma citation_part_0: "citationCount r = 0 \<Longrightarrow> citation_part impl r = 0"
  using fl_int [of 1] by (simp add: citation_part_def js_add_def js_mul_def Math_log_def)

lemma citation_part_1000:
  assumes "citationCount r = 1000" and "impl 1001 = of_int k / 2 ^ 50"
    and "0 \<le> k" and "k < 2 ^ 53"
  shows "citation_part impl r = of_int k / 2 ^ 51"
proof -
  have "js_add (real (citationCount r)) 1 = 1001"
    using fl_int [of 1001] assms(1) by (simp add: js_add_def)
  then have "citation_part impl r = fl (impl 1001 * 0.5)"
    by (simp add: citation_part_def Math_log_def js_mul_def)
  also have "\<dots> = fl (of_int k / 2 ^ 50 * 0.5)"
    by (simp only: assms(2))
  also have "of_int k / 2 ^ 50 * 0.5 = (of_int k :: real) / 2 ^ 51"
    by simp
  also have "fl (of_int k / 2 ^ 51) = of_int k / 2 ^ 51"
    using assms(3,4) by (intro fl_dyadic) simp_all
  finally show ?thesis .
qed

lemma lexical_no_hit:
  assumes "\<not> str_includes (toLowerCase (title r)) (toLowerCase q)"
    and "\<not> str_includes (toLowerCase (abstract r)) (toLowerCase q)"
    and "\<forall>t \<in> set (query_terms (toLowerCase q)).
           \<not> str_includes (toLowerCase (title r)) t \<and> \<not> str_includes (toLowerCase (abstract r)) t"
  shows "lexical q r = 0"
  using assms by (simp add: lexical_def Let_def add_term_matches_none)

lemma citation_gap:
  assumes "lexical q r = 0" and "impl 1001 = of_int k / 2 ^ 50"
    and "6 * 2 ^ 50 \<le> k" and "k < 7 * 2 ^ 50"
  shows "score_for impl cy q (r\<lparr>citationCount := 0\<rparr>) = bonus_value cy r"
    and "\<bar>score_for impl cy q (r\<lparr>citationCount := 1000\<rparr>) - bonus_value cy r - of_int k / 2 ^ 51\<bar>
          \<le> 1 / 2 ^ 51"
    and "even k \<Longrightarrow>
          score_for impl cy q (r\<lparr>citationCount := 1000\<rparr>) = bonus_value cy r + of_int k / 2 ^ 51"
    and "3 + bonus_value cy r \<le> score_for impl cy q (r\<lparr>citationCount := 1000\<rparr>)"
    and "score_for impl cy q (r\<lparr>citationCount := 1000\<rparr>) \<le> 7/2 + bonus_value cy r"
proof -
  let ?r0 = "r\<lparr>citationCount := 0\<rparr>" and ?r1 = "r\<lparr>citationCount := 1000\<rparr>"
  have k: "6755399441055744 \<le> k" "k < 7881299347898368"
    using assms(3,4) by simp_all
  have lex: "lexical q ?r0 = 0" "lexical q ?r1 = 0"
    using assms(1) by (simp_all add: lexical_def)
  have bon: "bonuses cy ?r0 = bonuses cy r" "bonuses cy ?r1 = bonuses cy r"
    by (rule ext, simp add: bonuses_def)+
  have c0: "citation_part impl ?r0 = 0"
    by (rule citation_part_0) simp
  have c1: "citation_part impl ?r1 = of_int k / 2 ^ 51"
    using assms(2) k by (intro citation_part_1000) simp_all
  have lk: "fl (of_int k / 2 ^ 51) = of_int k / 2 ^ 51"
    using k by (intro fl_dyadic) simp_all
  have "score_for impl cy q ?r0 = bonuses cy r 0"
    by (simp add: score_for_parts lex bon c0 js_add_def)
  also have "\<dots> = bonus_value cy r"
    using bonuses_int [of 0 cy r] by simp
  finally show s0: "score_for impl cy q ?r0 = bonus_value cy r" .
  have s1: "score_for impl cy q ?r1 = bonuses cy r (of_int k / 2 ^ 51)"
    by (simp only: score_for_parts lex bon c1 js_add_def add_0 lk)
  define a where "a = k - k mod 2"
  define b where "b = k + k mod 2"
  have ev: "even a" "even b"
    unfolding a_def b_def by presburger+
  have ab: "a \<le> k" "k \<le> b" "k - 1 \<le> a" "b \<le> k + 1"
    unfolding a_def b_def by presburger+
  have par: "(a = k \<and> b = k) \<or> (odd k \<and> a = k - 1 \<and> b = k + 1)"
    unfolding a_def b_def by presburger
  have "odd k \<Longrightarrow> k \<noteq> 6755399441055744"
    by auto
  with k(1) par have a6: "6755399441055744 \<le> a"
    by (elim disjE conjE) linarith+
  from k(2) par have b7: "b \<le> 7881299347898368"
    by (elim disjE conjE) linarith+
  have btw: "of_int a / 2 ^ 51 + bonus_value cy r \<le> bonuses cy r (of_int k / 2 ^ 51)
       \<and> bonuses cy r (of_int k / 2 ^ 51) \<le> of_int b / 2 ^ 51 + bonus_value cy r"
    using ev a6 b7 ab by (intro bonuses_between) (simp_all add: divide_right_mono)
  have "(of_int (k - 1) :: real) \<le> of_int a"
    using ab(3) by (simp only: of_int_le_iff)
  then have ra: "(of_int k - 1 :: real) \<le> of_int a"
    by simp
  have "(of_int b :: real) \<le> of_int (k + 1)"
    using ab(4) by (simp only: of_int_le_iff)
  then have rb: "(of_int b :: real) \<le> of_int k + 1"
    by simp
  have lo: "of_int k / 2 ^ 51 - 1 / 2 ^ 51 \<le> (of_int a :: real) / 2 ^ 51"
    using ra by (simp add: field_simps)
  have hi: "(of_int b :: real) / 2 ^ 51 \<le> of_int k / 2 ^ 51 + 1 / 2 ^ 51"
    using rb by (simp add: field_simps)
  show "\<bar>score_for impl cy q ?r1 - bonus_value cy r - of_int k / 2 ^ 51\<bar> \<le> 1 / 2 ^ 51"
    unfolding s1 using btw lo hi by linarith
  have "(3::real) \<le> of_int a / 2 ^ 51"
    using a6 by (simp add: le_divide_eq)
  with btw show "3 + bonus_value cy r \<le> score_for impl cy q ?r1"
    by (simp add: s1)
  have "(of_int b :: real) / 2 ^ 51 \<le> 7/2"
    using b7 by (simp add: divide_le_eq)
  with btw show "score_for impl cy q ?r1 \<le> 7/2 + bonus_value cy r"
    by (simp add: s1)
  show "score_for impl cy q ?r1 = bonus_value cy r + of_int k / 2 ^ 51" if "even k"
  proof -
    from that have "a = k" "b = k"
      unfolding a_def b_def by presburger+
    with btw show ?thesis by (simp add: s1)
  qed
qed

subsection \<open>Facts about the handler\<close>

lemma aggregate_pushed: "aggregate s c = pushed s @ pushed c"
  by (simp add: aggregate_def pushed_def split: settled.splits)

lemma deduplicateResults_empty_iff: "deduplicateResults xs = [] \<longleftrightarrow> xs = []"
  by (induction xs rule: rev_induct) (auto simp: deduplicateResults_Nil deduplicateResults_snoc)

lemma deduplicateResults_append:
  "deduplicateResults (ss @ cr) =
     deduplicateResults ss @ filter (\<lambda>c. dedup_key c \<notin> dedup_key ` set ss) (deduplicateResults cr)"
proof (induction cr rule: rev_induct)
  case Nil
  then show ?case by (simp add: deduplicateResults_Nil)
next
  case (snoc c cr)
  have "deduplicateResults (ss @ cr @ [c]) =
      (if dedup_key c \<in> dedup_key ` set (ss @ cr) then deduplicateResults (ss @ cr)
       else deduplicateResults (ss @ cr) @ [c])"
    using deduplicateResults_snoc [of "ss @ cr" c] by simp
  with snoc show ?case
    by (auto simp: deduplicateResults_snoc)
qed

lemma dedup_single: "deduplicateResults [r] = [r]"
  by (simp add: deduplicateResults_def)

lemma search_cases:
  "search env q uid =
     (let e = fst (expansion env q);
          all = aggregate (searchSemanticScholar env e) (searchCrossRef env e);
          ranked = rankResults (log_impl env) (currentYear env) (deduplicateResults all) q;
          t2 = snd (expansion env q) @ [CallSearchSemanticScholar e, CallSearchCrossRef e]
      in if all = [] then (\<lparr>status = 404, body = NoResultsFound q e\<rparr>, t2)
         else (\<lparr>status = 200, body = SearchResults q e (take 10 ranked) (length ranked)\<rparr>,
               t2 @ [CallDeduplicateResults, CallRankResults] @ store_history env uid q e ranked))"
  by (simp add: search_def Let_def split: prod.splits)

lemma expansion_events: "CallDeduplicateResults \<notin> set (snd (expansion env q))"
  by (simp add: expansion_def split: option.splits)

lemma serve_ok_cases:
  "status (fst (serve env req)) = 200 \<Longrightarrow> req_method req \<noteq> ''OPTIONS'' \<Longrightarrow>
     \<exists>js q. req_json req = Some js \<and> query js = Some q \<and> q \<noteq> []
       \<and> serve env req = search env q (userId js)"
  by (auto simp: serve_def split: option.splits if_splits)

lemma search_results_nonempty:
  "fst (search env q uid) = \<lparr>status = st, body = SearchResults q' e results n\<rparr> \<Longrightarrow>
     results \<noteq> [] \<and> 1 \<le> n"
proof -
  let ?e = "fst (expansion env q)"
  let ?all = "aggregate (searchSemanticScholar env ?e) (searchCrossRef env ?e)"
  let ?ranked = "rankResults (log_impl env) (currentYear env) (deduplicateResults ?all) q"
  assume a: "fst (search env q uid) = \<lparr>status = st, body = SearchResults q' e results n\<rparr>"
  then have ne: "?all \<noteq> []"
    by (auto simp: search_cases Let_def split: if_splits)
  with a have "results = take 10 ?ranked \<and> n = length ?ranked"
    by (auto simp: search_cases Let_def)
  moreover have "0 < length ?ranked"
    using ne by (simp add: length_rankResults deduplicateResults_empty_iff)
  ultimately show ?thesis
    by (cases ?ranked) simp_all
qed

lemma serve_results_nonempty:
  "fst (serve env req) = \<lparr>status = st, body = SearchResults q' e results n\<rparr> \<Longrightarrow>
     results \<noteq> [] \<and> 1 \<le> n"
  using search_results_nonempty
  by (auto simp: serve_def split: option.splits if_splits)

subsection \<open>The examples, evaluated\<close>

lemma score_no_citations:
  assumes "citationCount r = 0" and "4 * int (length (query_terms (toLowerCase q))) + 15 < 2 ^ 51"
  shows "score_for impl cy q r = of_int (lexical_int q r) + bonus_value cy r"
proof -
  have b: "4 * int (length (query_terms (toLowerCase q))) + 15 < 2251799813685248"
    using assms(2) by simp
  then have "4 * int (length (query_terms (toLowerCase q))) + 15 < 9007199254740992"
    by linarith
  then have "lexical q r = of_int (lexical_int q r)"
    by (intro lexical_exact) simp
  moreover have "citation_part impl r = 0"
    using assms(1) by (rule citation_part_0)
  moreover have "fl (of_int (lexical_int q r)) = of_int (lexical_int q r)"
    using lexical_int_bounds [of q r] b by (intro fl_int_numeral) linarith+
  moreover have "bonuses cy r (of_int (lexical_int q r)) = of_int (lexical_int q r) + bonus_value cy r"
    using lexical_int_bounds [of q r] b by (intro bonuses_int_numeral) linarith+
  ultimately show ?thesis
    by (simp add: score_for_parts js_add_def)
qed

lemma eval_deep_terms: "query_terms (toLowerCase ''deep learning'') = [''deep'', ''learning'']"
  by code_simp

lemma eval_deep_title:
  "str_includes (toLowerCase (title (paper ''Deep Learning Methods'' None))) (toLowerCase ''deep learning'')"
  by code_simp

lemma eval_deep_lexical: "lexical_int ''deep learning'' (paper ''Deep Learning Methods'' None) = 16"
  by code_simp

lemma eval_graph_lexical: "lexical_int ''deep learning'' (paper ''Graph Theory'' None) = 0"
  by code_simp

lemma eval_graph_no_hit:
  "\<not> str_includes (toLowerCase (title (paper ''Graph Theory'' None))) (toLowerCase ''deep learning'')"
  "\<not> str_includes (toLowerCase (abstract (paper ''Graph Theory'' None))) (toLowerCase ''deep learning'')"
  "\<not> str_includes (toLowerCase (title (paper ''Graph Theory'' None))) ''deep''"
  "\<not> str_includes (toLowerCase (title (paper ''Graph Theory'' None))) ''learning''"
  "\<not> str_includes (toLowerCase (abstract (paper ''Graph Theory'' None))) ''deep''"
  "\<not> str_includes (toLowerCase (abstract (paper ''Graph Theory'' None))) ''learning''"
  by code_simp+

lemma eval_qa_terms: "query_terms (toLowerCase ''qa'') = []"
  by code_simp

lemma eval_qa_title:
  "str_includes (toLowerCase (title (paper ''QA systems'' None))) (toLowerCase ''qa'')"
  by code_simp

lemma eval_qa_lexical:
  "lexical_int ''qa'' (paper ''QA systems'' None) = 10"
  "lexical_int ''qa'' (paper ''Visual QA'' None) = 10"
  by code_simp+

lemma paper_bonus: "bonus_value cy (paper t d) = 0"
  by (simp add: bonus_value_def paper_def recent_def)

lemma score_deep:
  "score_for impl 2026 ''deep learning'' (paper ''Deep Learning Methods'' None) = 16"
  using score_no_citations [of "paper ''Deep Learning Methods'' None" "''deep learning''" impl 2026]
  by (simp add: eval_deep_terms eval_deep_lexical paper_bonus) (simp add: paper_def)

lemma score_graph: "score_for impl 2026 ''deep learning'' (paper ''Graph Theory'' None) = 0"
  using score_no_citations [of "paper ''Graph Theory'' None" "''deep learning''" impl 2026]
  by (simp add: eval_deep_terms eval_graph_lexical paper_bonus) (simp add: paper_def)

lemma score_qa:
  "score_for impl 2026 ''qa'' (paper ''QA systems'' None) = 10"
  "score_for impl 2026 ''qa'' (paper ''Visual QA'' None) = 10"
  using score_no_citations [of "paper ''QA systems'' None" "''qa''" impl 2026]
    score_no_citations [of "paper ''Visual QA'' None" "''qa''" impl 2026]
  by (simp_all add: eval_qa_terms eval_qa_lexical paper_bonus) (simp_all add: paper_def)

lemma eval_short:
  "str_includes (toLowerCase (title (cited_once ''qa''))) (toLowerCase ''qa'')"
  "\<not> str_includes (toLowerCase (title (cited_once ''zz''))) (toLowerCase ''qa'')"
  "lexical_int ''qa'' (cited_once ''qa'') = 10" "lexical_int ''qa'' (cited_once ''zz'') = 0"
  by code_simp+

lemma citation_part_1: "citationCount r = 1 \<Longrightarrow> citation_part example_log r = 6243314768165359 / 2 ^ 54"
proof -
  assume c: "citationCount r = 1"
  have "js_add (real (citationCount r)) 1 = 2"
    using fl_int [of 2] c by (simp add: js_add_def)
  then have "citation_part example_log r = fl (6243314768165359 / 2 ^ 53 * 0.5)"
    by (simp add: citation_part_def Math_log_def js_mul_def example_log_def)
  also have "(6243314768165359 :: real) / 2 ^ 53 * 0.5 = of_int 6243314768165359 / 2 ^ 54"
    by simp
  also have "fl (of_int 6243314768165359 / 2 ^ 54) = of_int 6243314768165359 / 2 ^ 54"
    by (intro fl_dyadic) simp_all
  finally show ?thesis by simp
qed

lemma score_short_qa: "score_for example_log 2026 ''qa'' (cited_once ''qa'') = 5824603120718287 / 2 ^ 49"
proof -
  have "lexical ''qa'' (cited_once ''qa'') = of_int (lexical_int ''qa'' (cited_once ''qa''))"
    by (intro lexical_exact) (simp add: eval_qa_terms)
  then have l: "lexical ''qa'' (cited_once ''qa'') = 10"
    by (simp add: eval_short)
  have c: "citation_part example_log (cited_once ''qa'') = 6243314768165359 / 2 ^ 54"
    by (rule citation_part_1) (simp add: cited_once_def)
  have b: "bonuses 2026 (cited_once ''qa'') x = x" for x
    by (simp add: bonuses_def cited_once_def paper_def recent_def)
  show ?thesis
    by (simp only: score_for_parts l c b score_rounded_example)
qed

lemma score_short_zz: "score_for example_log 2026 ''qa'' (cited_once ''zz'') = 6243314768165359 / 2 ^ 54"
proof -
  have "lexical ''qa'' (cited_once ''zz'') = of_int (lexical_int ''qa'' (cited_once ''zz''))"
    by (intro lexical_exact) (simp add: eval_qa_terms)
  then have l: "lexical ''qa'' (cited_once ''zz'') = 0"
    by (simp add: eval_short)
  have c: "citation_part example_log (cited_once ''zz'') = 6243314768165359 / 2 ^ 54"
    by (rule citation_part_1) (simp add: cited_once_def)
  have b: "bonuses 2026 (cited_once ''zz'') x = x" for x
    by (simp add: bonuses_def cited_once_def paper_def recent_def)
  have "fl (of_int 6243314768165359 / 2 ^ 54) = of_int 6243314768165359 / 2 ^ 54"
    by (intro fl_dyadic) simp_all
  then have f: "fl (6243314768165359 / 2 ^ 54) = 6243314768165359 / 2 ^ 54"
    by simp
  show ?thesis
    by (simp only: score_for_parts l c b js_add_def add_0 f)
qed

lemma serve_example:
  "serve (example_env (Fulfilled [paper ''Deep Learning Methods'' None]) Rejected)
     (post (Some ''deep learning'') None)
   = (\<lparr>status = 200,
        body = SearchResults ''deep learning'' ''deep learning''
                 [with_score (paper ''Deep Learning Methods'' None) 16] 1\<rparr>,
      [CallSearchSemanticScholar ''deep learning'', CallSearchCrossRef ''deep learning'',
       CallDeduplicateResults, CallRankResults])"
  by (simp add: serve_def post_def search_cases Let_def expansion_def example_env_def
      aggregate_def dedup_single rankResults_scored scored_def score_deep store_history_def)

section \<open>Claims\<close>

subsection \<open>The score\<close>

text \<open>
  C1. For every list of records and every query, \<^verbatim>\<open>rankResults\<close> returns one scored
  record for each record of the input, with the fields of that record, and its
  \<^verbatim>\<open>relevanceScore\<close> is the sum \<open>score_sum\<close>, in the arithmetic of numbers, of the
  contributions the record has, each computed from that record and the original query
  alone: 10 if the lower-cased title contains the lower-cased query, 3 for each query
  term (a field of the lower-cased query split at white space, longer than 2) the
  lower-cased title contains, 5 and 1 in the same way for the abstract,
  \<^verbatim>\<open>Math.log(citationCount + 1) * 0.5\<close>, 3 if the year is present and at most 5 before
  the current year, and 0.5 if the source is "Semantic Scholar"; nothing is normalised.
  The wall clock is after the year 5, so that a year 0, which is falsy, is never recent.
\<close>

theorem C1_rank_score_sum:
  "5 < cy \<Longrightarrow>
     length (rankResults impl cy rs q) = length rs
     \<and> mset (map (\<lambda>a. ((title a, authors a, year a, abstract a, url a, source a,
                          citationCount a, doi a), relevanceScore a))
              (rankResults impl cy rs q))
       = mset (map (\<lambda>r. ((title r, authors r, year r, abstract r, url r, source r,
                            citationCount r, doi r), score_sum impl cy q r))
                rs)"
  using rank_fields_scores [of impl cy rs q]
  by (simp add: length_rankResults scored_fields_def citation_fields_def score_for_sum)

theorem C1_rank_score_sum_witness:
  "(5::int) < 2026
   \<and> map (\<lambda>a. ((title a, authors a, year a, abstract a, url a, source a, citationCount a,
                  doi a), relevanceScore a))
       (rankResults example_log 2026 [paper ''Deep Learning Methods'' None] ''deep learning'')
     = [((''Deep Learning Methods'', ''Unknown'', None, ''No abstract available'', None,
          ''CrossRef'', 0, None), 16)]"
proof -
  have h: "(5::int) < 2026" by simp
  have s: "score_sum example_log 2026 ''deep learning'' (paper ''Deep Learning Methods'' None) = 16"
    using score_for_sum [OF h, of example_log "''deep learning''"
        "paper ''Deep Learning Methods'' None"] score_deep [of example_log]
    by simp
  note t = C1_rank_score_sum [OF h, of example_log "[paper ''Deep Learning Methods'' None]"
      "''deep learning''"]
  have "mset (map (\<lambda>a. ((title a, authors a, year a, abstract a, url a, source a,
                            citationCount a, doi a), relevanceScore a))
                (rankResults example_log 2026 [paper ''Deep Learning Methods'' None]
                   ''deep learning''))
      = {#((''Deep Learning Methods'', ''Unknown'', None, ''No abstract available'', None,
            ''CrossRef'', 0, None), 16)#}"
    using t s by (simp add: paper_def)
  then show ?thesis
    by (simp only: mset_single_iff) simp
qed

subsection \<open>Deduplication\<close>

text \<open>
  C2, as stated, fails: the keys of the records with a DOI and of the records without one
  live in one set, so a record without a DOI whose lower-cased, trimmed title is the DOI
  string of a later record makes the first record with that DOI a duplicate. In the list
  below the two records with the DOI 10.1/x are both dropped, and the first of them is
  not a first occurrence of its key.
\<close>

theorem C2_counterexample:
  "deduplicateResults
     [paper ''10.1/x'' None, paper ''Foo'' (Some ''10.1/x''), paper ''Bar'' (Some ''10.1/x'')]
   = [paper ''10.1/x'' None]
   \<and> \<not> first_occurrence
        [paper ''10.1/x'' None, paper ''Foo'' (Some ''10.1/x''), paper ''Bar'' (Some ''10.1/x'')] 1"
  by (simp add: deduplicateResults_def first_occurrence_def key_doi_titled key_foo key_bar)

text \<open>
  C2, amended. For every input list \<open>rs\<close>, \<^verbatim>\<open>deduplicateResults\<close> returns the
  records at the first occurrences of their keys, in the order of the input: the record
  at position \<open>i\<close> is kept if and only if no earlier record has its key (the DOI when it
  is present and not empty, otherwise the lower-cased, trimmed title). Among the records
  that share a non-empty DOI every one after the first is dropped, whatever the titles;
  the first of them is kept if and only if no earlier record without a DOI has the DOI
  string as its lower-cased, trimmed title. Two records with different non-empty DOIs
  never have the same key, also when their titles are equal.
\<close>

theorem C2_dedupe_first_occurrence:
  "deduplicateResults rs = nths rs {i. first_occurrence rs i}
   \<and> subseq (deduplicateResults rs) rs
   \<and> (\<forall>i j d. i < j \<and> j < length rs \<and> d \<noteq> [] \<and> doi (rs ! i) = Some d \<and> doi (rs ! j) = Some d
        \<longrightarrow> \<not> first_occurrence rs j)
   \<and> (\<forall>i d. i < length rs \<and> d \<noteq> [] \<and> doi (rs ! i) = Some d
          \<and> (\<forall>j<i. doi (rs ! j) \<noteq> Some d)
        \<longrightarrow> first_occurrence rs i =
            (\<not> (\<exists>j<i. no_doi (rs ! j) \<and> trim (toLowerCase (title (rs ! j))) = d)))
   \<and> (\<forall>(a::NormalizedCitation) (b::NormalizedCitation) da db. doi a = Some da \<and> doi b = Some db \<and> da \<noteq> [] \<and> db \<noteq> [] \<and> da \<noteq> db
        \<longrightarrow> dedup_key a \<noteq> dedup_key b)"
proof (intro conjI allI impI)
  show "deduplicateResults rs = nths rs {i. first_occurrence rs i}"
    by (rule dedup_nths)
  then show "subseq (deduplicateResults rs) rs"
    using subseq_conv_nths by blast
next
  fix i j d
  assume "i < j \<and> j < length rs \<and> d \<noteq> [] \<and> doi (rs ! i) = Some d \<and> doi (rs ! j) = Some d"
  then show "\<not> first_occurrence rs j"
    by (intro later_duplicate_dropped [of i j]) (simp_all add: dedup_key_doi)
next
  fix i d
  assume a: "i < length rs \<and> d \<noteq> [] \<and> doi (rs ! i) = Some d \<and> (\<forall>j<i. doi (rs ! j) \<noteq> Some d)"
  then have k: "dedup_key (rs ! i) = d"
    by (simp add: dedup_key_doi)
  have "dedup_key (rs ! j) = d \<longleftrightarrow> no_doi (rs ! j) \<and> trim (toLowerCase (title (rs ! j))) = d"
    if "j < i" for j
    using a that by (auto simp: dedup_key_def no_doi_def split: option.splits)
  with a k show "first_occurrence rs i =
      (\<not> (\<exists>j<i. no_doi (rs ! j) \<and> trim (toLowerCase (title (rs ! j))) = d))"
    by (auto simp: first_occurrence_iff)
next
  fix a b :: NormalizedCitation and da db
  assume "doi a = Some da \<and> doi b = Some db \<and> da \<noteq> [] \<and> db \<noteq> [] \<and> da \<noteq> db"
  then show "dedup_key a \<noteq> dedup_key b"
    by (simp add: dedup_key_doi)
qed

theorem C2_dedupe_first_occurrence_witness:
  "deduplicateResults [paper ''Foo'' (Some ''10.1/x''), paper ''Bar'' (Some ''10.1/x'')]
     = [paper ''Foo'' (Some ''10.1/x'')]
   \<and> \<not> first_occurrence [paper ''Foo'' (Some ''10.1/x''), paper ''Bar'' (Some ''10.1/x'')] 1
   \<and> first_occurrence [paper ''Foo'' (Some ''10.1/x''), paper ''Bar'' (Some ''10.1/x'')] 0
   \<and> dedup_key (paper ''Foo'' (Some ''10.1/x'')) \<noteq> dedup_key (paper ''Foo'' (Some ''10.1/y''))"
proof -
  let ?A = "paper ''Foo'' (Some ''10.1/x'')"
  let ?B = "paper ''Bar'' (Some ''10.1/x'')"
  let ?C = "paper ''Foo'' (Some ''10.1/y'')"
  note t = C2_dedupe_first_occurrence [of "[?A, ?B]"]
  have dA: "doi ?A = Some ''10.1/x''" and dB: "doi ?B = Some ''10.1/x''"
    and dC: "doi ?C = Some ''10.1/y''"
    by (simp_all add: paper_def)
  note t1 = t [THEN conjunct1]
  note t3 = t [THEN conjunct2, THEN conjunct2, THEN conjunct1, rule_format, of 0 1 "''10.1/x''"]
  note t4 = t [THEN conjunct2, THEN conjunct2, THEN conjunct2, THEN conjunct1, rule_format,
      of 0 "''10.1/x''"]
  note t5 = t [THEN conjunct2, THEN conjunct2, THEN conjunct2, THEN conjunct2, rule_format,
      of ?A "''10.1/x''" ?C "''10.1/y''"]
  have n1: "\<not> first_occurrence [?A, ?B] 1"
    using t3 dA dB by simp
  have n0: "first_occurrence [?A, ?B] 0"
    using t4 dA by simp
  have k: "dedup_key ?A \<noteq> dedup_key ?C"
    using t5 dA dC by simp
  have "deduplicateResults [?A, ?B] = [?A]"
    using t1 n0 n1 by (simp add: nths_Cons)
  with n0 n1 k show ?thesis
    by simp
qed

text \<open>
  C3, as stated, fails: \<^verbatim>\<open>trim\<close> removes white space at the two ends only, so the
  three spaces inside the second title stay and the two keys differ. Both records are
  kept.
\<close>

theorem C3_counterexample:
  "deduplicateResults [paper ''Deep Learning'' None, paper ''deep   learning '' None]
     = [paper ''Deep Learning'' None, paper ''deep   learning '' None]"
  by (simp add: deduplicateResults_def key_deep key_deep3)

text \<open>
  C3, amended. If two records both have no DOI and their titles are equal after
  lower-casing and trimming the white space at the two ends (as "Deep Learning" and
  " deep learning " are), then \<^verbatim>\<open>deduplicateResults\<close> of the two, first one first,
  keeps only the first, and in every list that has the first before the second the
  second is not a first occurrence of its key, so it is dropped.
\<close>

theorem C3_dedupe_equal_normalised_titles:
  fixes a b :: NormalizedCitation
  shows "no_doi a \<Longrightarrow> no_doi b \<Longrightarrow> trim (toLowerCase (title a)) = trim (toLowerCase (title b)) \<Longrightarrow>
     deduplicateResults [a, b] = [a]
     \<and> (\<forall>rs i j. i < j \<and> j < length rs \<and> rs ! i = a \<and> rs ! j = b \<longrightarrow> \<not> first_occurrence rs j)"
proof -
  assume "no_doi a" "no_doi b" "trim (toLowerCase (title a)) = trim (toLowerCase (title b))"
  then have k: "dedup_key a = dedup_key b"
    by (simp add: dedup_key_no_doi)
  then have "deduplicateResults [a, b] = [a]"
    by (simp add: deduplicateResults_def)
  moreover have "\<not> first_occurrence rs j" if "i < j \<and> j < length rs \<and> rs ! i = a \<and> rs ! j = b"
    for rs i j
    using that k by (intro later_duplicate_dropped [of i j]) simp_all
  ultimately show ?thesis
    by blast
qed

theorem C3_dedupe_equal_normalised_titles_witness:
  "deduplicateResults [paper ''Deep Learning'' None, paper '' deep learning '' None]
     = [paper ''Deep Learning'' None]
   \<and> \<not> first_occurrence
        [paper ''Deep Learning'' None, paper ''Other'' None, paper '' deep learning '' None] 2"
proof -
  let ?a = "paper ''Deep Learning'' None"
  let ?b = "paper '' deep learning '' None"
  let ?rs = "[?a, paper ''Other'' None, ?b]"
  have h1: "no_doi ?a" and h2: "no_doi ?b"
    by (simp_all add: no_doi_def paper_def)
  have h3: "trim (toLowerCase (title ?a)) = trim (toLowerCase (title ?b))"
    by (simp add: paper_def norm_deep norm_deep1)
  note t = C3_dedupe_equal_normalised_titles [OF h1 h2 h3]
  have "\<not> first_occurrence ?rs 2"
    using t [THEN conjunct2, rule_format, of 0 2 ?rs] by simp
  with t [THEN conjunct1] show ?thesis
    by simp
qed

subsection \<open>No results\<close>

text \<open>
  C4. For a request with a query, if each of the two provider searches is rejected or
  gives the empty list, the handler answers 404 with the query and the expanded query,
  and calls neither \<^verbatim>\<open>deduplicateResults\<close> nor \<^verbatim>\<open>rankResults\<close>. No request at all
  is answered with an empty list of results.
\<close>

theorem C4_no_results_is_404:
  assumes "req_method req \<noteq> ''OPTIONS''" and "req_json req = Some js"
    and "query js = Some q" and "q \<noteq> []"
    and "searchSemanticScholar env (fst (expansion env q)) \<in> {Rejected, Fulfilled []}"
    and "searchCrossRef env (fst (expansion env q)) \<in> {Rejected, Fulfilled []}"
  shows "fst (serve env req) = \<lparr>status = 404, body = NoResultsFound q (fst (expansion env q))\<rparr>
    \<and> CallDeduplicateResults \<notin> set (snd (serve env req))
    \<and> CallRankResults \<notin> set (snd (serve env req))
    \<and> (\<forall>env' req' st q' e' n.
          fst (serve env' req') \<noteq> \<lparr>status = st, body = SearchResults q' e' [] n\<rparr>)"
proof -
  have "aggregate (searchSemanticScholar env (fst (expansion env q)))
      (searchCrossRef env (fst (expansion env q))) = []"
    using assms(5,6) by (auto simp: aggregate_def)
  then have "fst (serve env req) = \<lparr>status = 404, body = NoResultsFound q (fst (expansion env q))\<rparr>
    \<and> CallDeduplicateResults \<notin> set (snd (serve env req))
    \<and> CallRankResults \<notin> set (snd (serve env req))"
    using assms(1-4)
    by (simp add: serve_def search_cases Let_def expansion_def split: option.splits)
  moreover have "fst (serve env' req') \<noteq> \<lparr>status = st, body = SearchResults q' e' [] n\<rparr>"
    for env' req' st q' e' n
    using serve_results_nonempty [of env' req' st q' e' "[]" n] by blast
  ultimately show ?thesis by blast
qed

theorem C4_no_results_is_404_witness:
  "fst (serve (example_env Rejected (Fulfilled [])) (post (Some ''machine learning'') None))
     = \<lparr>status = 404, body = NoResultsFound ''machine learning'' ''machine learning''\<rparr>"
proof -
  let ?env = "example_env Rejected (Fulfilled [])"
  let ?req = "post (Some ''machine learning'') None"
  have e: "fst (expansion ?env ''machine learning'') = ''machine learning''"
    by (simp add: expansion_def example_env_def)
  have h: "req_method ?req \<noteq> ''OPTIONS''"
    "req_json ?req = Some \<lparr>query = Some ''machine learning'', userId = None\<rparr>"
    "query \<lparr>query = Some ''machine learning'', userId = None\<rparr> = Some ''machine learning''"
    "''machine learning'' \<noteq> []"
    "searchSemanticScholar ?env (fst (expansion ?env ''machine learning'')) \<in> {Rejected, Fulfilled []}"
    "searchCrossRef ?env (fst (expansion ?env ''machine learning'')) \<in> {Rejected, Fulfilled []}"
    by (simp_all add: post_def example_env_def)
  show ?thesis
    using C4_no_results_is_404 [OF h, THEN conjunct1] e by simp
qed

subsection \<open>Margins of the score\<close>

text \<open>
  C5, as stated, fails for a query without a term longer than 2 characters: then no
  title contains a query term. Both titles may contain the whole query: with the query
  "qa" the first two records below differ in the title only, the first title contains
  the query, the list of query terms is empty, and both records leave
  \<^verbatim>\<open>rankResults\<close> with the score 10. And when the second title does not contain the
  query, the exact scores differ by 10 and the rounding of the additions may take some
  of it: the last two records have one citation each, and with V8's \<^verbatim>\<open>Math.log(2)\<close>
  their scores differ by 10 less \<open>15 / 2 ^ 54\<close>.
\<close>

theorem C5_counterexample:
  "abstract (paper ''QA systems'' None) = abstract (paper ''Visual QA'' None)
   \<and> citationCount (paper ''QA systems'' None) = citationCount (paper ''Visual QA'' None)
   \<and> year (paper ''QA systems'' None) = year (paper ''Visual QA'' None)
   \<and> source (paper ''QA systems'' None) = source (paper ''Visual QA'' None)
   \<and> str_includes (toLowerCase (title (paper ''QA systems'' None))) (toLowerCase ''qa'')
   \<and> query_terms (toLowerCase ''qa'') = []
   \<and> map (\<lambda>a. (title a, relevanceScore a))
         (rankResults example_log 2026 [paper ''QA systems'' None, paper ''Visual QA'' None] ''qa'')
       = [(''QA systems'', 10), (''Visual QA'', 10)]
   \<and> abstract (cited_once ''qa'') = abstract (cited_once ''zz'')
   \<and> citationCount (cited_once ''qa'') = citationCount (cited_once ''zz'')
   \<and> year (cited_once ''qa'') = year (cited_once ''zz'')
   \<and> source (cited_once ''qa'') = source (cited_once ''zz'')
   \<and> str_includes (toLowerCase (title (cited_once ''qa''))) (toLowerCase ''qa'')
   \<and> \<not> str_includes (toLowerCase (title (cited_once ''zz''))) (toLowerCase ''qa'')
   \<and> map (\<lambda>a. (title a, relevanceScore a))
         (rankResults example_log 2026 [cited_once ''qa'', cited_once ''zz''] ''qa'')
       = [(''qa'', 5824603120718287 / 2 ^ 49), (''zz'', 6243314768165359 / 2 ^ 54)]
   \<and> \<not> (6243314768165359 / 2 ^ 54 + 10 \<le> (5824603120718287 :: real) / 2 ^ 49)"
proof -
  have "map (\<lambda>a. (title a, relevanceScore a))
         (rankResults example_log 2026 [paper ''QA systems'' None, paper ''Visual QA'' None] ''qa'')
       = [(''QA systems'', 10), (''Visual QA'', 10)]"
    by (simp add: rankResults_scored scored_def score_qa) (simp add: paper_def)
  moreover have "map (\<lambda>a. (title a, relevanceScore a))
         (rankResults example_log 2026 [cited_once ''qa'', cited_once ''zz''] ''qa'')
       = [(''qa'', 5824603120718287 / 2 ^ 49), (''zz'', 6243314768165359 / 2 ^ 54)]"
    by (simp add: rankResults_scored scored_def score_short_qa score_short_zz)
       (simp add: cited_once_def paper_def)
  moreover have "\<not> (6243314768165359 / 2 ^ 54 + 10 \<le> (5824603120718287 :: real) / 2 ^ 49)"
    by simp
  ultimately show ?thesis
    using eval_qa_title eval_short(1,2)
    by (simp add: eval_qa_terms) (simp add: cited_once_def paper_def)
qed

text \<open>
  C5, amended. For every query with at least one term longer than 2 characters and every
  two records with the same abstract, citation count, year and source, if the lower-cased
  title of the first contains the lower-cased query and the lower-cased title of the
  second contains none of the query terms, then the \<^verbatim>\<open>relevanceScore\<close> of the first
  is at least 10 above that of the second (the exact scores differ by 13 or more, and
  the additions round by less than 1). The query is shorter than \<open>2 ^ 32\<close> characters,
  as every string of the engine is, and \<^verbatim>\<open>Math.log\<close> of the citation count plus one
  is between 0 and 1024, as the logarithm of every number from 1 on is.
\<close>

theorem C5_full_title_match_margin:
  fixes a b :: NormalizedCitation
  assumes "abstract a = abstract b" and "citationCount a = citationCount b"
    and "year a = year b" and "source a = source b"
    and "str_includes (toLowerCase (title a)) (toLowerCase q)"
    and "\<forall>t \<in> set (query_terms (toLowerCase q)). \<not> str_includes (toLowerCase (title b)) t"
    and "query_terms (toLowerCase q) \<noteq> []"
    and "length q < 2 ^ 32"
    and "0 \<le> Math_log impl (js_add (real (citationCount a)) 1)"
    and "Math_log impl (js_add (real (citationCount a)) 1) \<le> 1024"
  shows "\<exists>oa ob. rankResults impl cy [b, a] q = [oa, ob]
     \<and> (title oa, authors oa, year oa, abstract oa, url oa, source oa, citationCount oa, doi oa)
         = (title a, authors a, year a, abstract a, url a, source a, citationCount a, doi a)
     \<and> (title ob, authors ob, year ob, abstract ob, url ob, source ob, citationCount ob, doi ob)
         = (title b, authors b, year b, abstract b, url b, source b, citationCount b, doi b)
     \<and> relevanceScore ob + 10 \<le> relevanceScore oa"
proof -
  have m: "score_for impl cy q b + 12 \<le> score_for impl cy q a"
    using assms by (rule score_margin)
  then have "score_for impl cy q b < score_for impl cy q a"
    by simp
  then have "rankResults impl cy [b, a] q
      = [with_score a (score_for impl cy q a), with_score b (score_for impl cy q b)]"
    by (rule rankResults_pair_swap)
  with m show ?thesis
    by simp
qed

theorem C5_full_title_match_margin_witness:
  "\<exists>oa ob. rankResults example_log 2026
       [paper ''Graph Theory'' None, paper ''Deep Learning Methods'' None] ''deep learning''
       = [oa, ob]
     \<and> title oa = ''Deep Learning Methods'' \<and> title ob = ''Graph Theory''
     \<and> relevanceScore ob + 10 \<le> relevanceScore oa"
proof -
  let ?a = "paper ''Deep Learning Methods'' None"
  let ?b = "paper ''Graph Theory'' None"
  have h: "abstract ?a = abstract ?b" "citationCount ?a = citationCount ?b"
    "year ?a = year ?b" "source ?a = source ?b"
    by (simp_all add: paper_def)
  have h6: "\<forall>t \<in> set (query_terms (toLowerCase ''deep learning'')).
      \<not> str_includes (toLowerCase (title ?b)) t"
    using eval_graph_no_hit by (simp add: eval_deep_terms)
  have h7: "query_terms (toLowerCase ''deep learning'') \<noteq> []"
    by (simp add: eval_deep_terms)
  have h8: "length ''deep learning'' < 2 ^ 32"
    by simp
  have l: "Math_log example_log (js_add (real (citationCount ?a)) 1) = 0"
    using fl_int [of 1] by (simp add: paper_def js_add_def Math_log_def)
  have h9: "0 \<le> Math_log example_log (js_add (real (citationCount ?a)) 1)"
    and h10: "Math_log example_log (js_add (real (citationCount ?a)) 1) \<le> 1024"
    by (simp_all add: l)
  obtain oa ob where o: "rankResults example_log 2026 [?b, ?a] ''deep learning'' = [oa, ob]
     \<and> (title oa, authors oa, year oa, abstract oa, url oa, source oa, citationCount oa, doi oa)
         = (title ?a, authors ?a, year ?a, abstract ?a, url ?a, source ?a, citationCount ?a, doi ?a)
     \<and> (title ob, authors ob, year ob, abstract ob, url ob, source ob, citationCount ob, doi ob)
         = (title ?b, authors ?b, year ?b, abstract ?b, url ?b, source ?b, citationCount ?b, doi ?b)
     \<and> relevanceScore ob + 10 \<le> relevanceScore oa"
    using C5_full_title_match_margin [OF h eval_deep_title h6 h7 h8 h9 h10, of 2026] by blast
  then have "title oa = ''Deep Learning Methods'' \<and> title ob = ''Graph Theory''"
    by (simp add: paper_def)
  with o show ?thesis by blast
qed

text \<open>
  C6. Two records that differ in the citation count only, 0 and 1000, and whose title and
  abstract contain neither the query nor a query term: \<^verbatim>\<open>rankResults\<close> puts the record
  with 1000 citations first, with a strictly higher \<^verbatim>\<open>relevanceScore\<close>. The two scores
  differ by \<^verbatim>\<open>Math.log(1001) * 0.5\<close>, up to the rounding of the additions of the
  recency and source bonuses (at most \<open>1 / 2 ^ 51\<close>) and exactly when the significand of
  \<^verbatim>\<open>Math.log(1001)\<close> is even, as that of V8's value is; the difference is less than 4.
  \<^verbatim>\<open>Math.log(1001)\<close> is a number from 6 to 7: a multiple \<open>k\<close> of \<open>1 / 2 ^ 50\<close>.
\<close>

theorem C6_citation_count_log_damped:
  assumes "\<not> str_includes (toLowerCase (title r)) (toLowerCase q)"
    and "\<not> str_includes (toLowerCase (abstract r)) (toLowerCase q)"
    and "\<forall>t \<in> set (query_terms (toLowerCase q)).
           \<not> str_includes (toLowerCase (title r)) t \<and> \<not> str_includes (toLowerCase (abstract r)) t"
    and "impl 1001 = of_int k / 2 ^ 50" and "6 * 2 ^ 50 \<le> k" and "k < 7 * 2 ^ 50"
  shows "\<exists>o1 o0. rankResults impl cy [r\<lparr>citationCount := 0\<rparr>, r\<lparr>citationCount := 1000\<rparr>] q
                   = [o1, o0]
     \<and> (title o1, authors o1, year o1, abstract o1, url o1, source o1, citationCount o1, doi o1)
         = (title r, authors r, year r, abstract r, url r, source r, 1000, doi r)
     \<and> (title o0, authors o0, year o0, abstract o0, url o0, source o0, citationCount o0, doi o0)
         = (title r, authors r, year r, abstract r, url r, source r, 0, doi r)
     \<and> relevanceScore o0 < relevanceScore o1
     \<and> relevanceScore o1 - relevanceScore o0 < 4
     \<and> \<bar>relevanceScore o1 - relevanceScore o0 - impl 1001 * 0.5\<bar> \<le> 1 / 2 ^ 51
     \<and> (even k \<longrightarrow> relevanceScore o1 - relevanceScore o0 = impl 1001 * 0.5)"
proof -
  let ?r0 = "r\<lparr>citationCount := 0\<rparr>" and ?r1 = "r\<lparr>citationCount := 1000\<rparr>"
  let ?s0 = "score_for impl cy q ?r0" and ?s1 = "score_for impl cy q ?r1"
  have lex: "lexical q r = 0"
    using assms(1-3) by (rule lexical_no_hit)
  note g = citation_gap [where q = q and r = r and impl = impl and k = k and cy = cy,
      OF lex assms(4-6)]
  have half: "impl 1001 * 0.5 = of_int k / 2 ^ 51"
    by (simp only: assms(4)) simp
  have lt: "?s0 < ?s1"
    using g(1,4) by linarith
  have d4: "?s1 - ?s0 < 4"
    using g(1,5) by linarith
  have ab: "\<bar>?s1 - ?s0 - impl 1001 * 0.5\<bar> \<le> 1 / 2 ^ 51"
    using g(1,2) by (simp only: half)
  have ev: "even k \<longrightarrow> ?s1 - ?s0 = impl 1001 * 0.5"
    using g(1,3) by (simp only: half) simp
  have "rankResults impl cy [?r0, ?r1] q = [with_score ?r1 ?s1, with_score ?r0 ?s0]"
    using lt by (rule rankResults_pair_swap)
  with lt d4 ab ev show ?thesis
    by simp
qed

theorem C6_citation_count_log_damped_witness:
  "\<exists>o1 o0. rankResults example_log 2026
       [(paper ''Graph Theory'' None)\<lparr>citationCount := 0\<rparr>,
        (paper ''Graph Theory'' None)\<lparr>citationCount := 1000\<rparr>] ''deep learning''
       = [o1, o0]
     \<and> citationCount o1 = 1000 \<and> citationCount o0 = 0
     \<and> relevanceScore o0 < relevanceScore o1
     \<and> relevanceScore o1 - relevanceScore o0 = 7778566362429540 / 2 ^ 51"
proof -
  let ?r = "paper ''Graph Theory'' None"
  have h1: "\<not> str_includes (toLowerCase (title ?r)) (toLowerCase ''deep learning'')"
    and h2: "\<not> str_includes (toLowerCase (abstract ?r)) (toLowerCase ''deep learning'')"
    by (rule eval_graph_no_hit)+
  have h3: "\<forall>t \<in> set (query_terms (toLowerCase ''deep learning'')).
      \<not> str_includes (toLowerCase (title ?r)) t \<and> \<not> str_includes (toLowerCase (abstract ?r)) t"
    using eval_graph_no_hit by (simp add: eval_deep_terms)
  have h4: "example_log 1001 = of_int 7778566362429540 / 2 ^ 50"
    by (simp add: example_log_def)
  have h5: "6 * 2 ^ 50 \<le> (7778566362429540::int)" and h6: "(7778566362429540::int) < 7 * 2 ^ 50"
    by simp_all
  have e: "even (7778566362429540::int)"
    by simp
  obtain o1 o0 where o: "rankResults example_log 2026
        [?r\<lparr>citationCount := 0\<rparr>, ?r\<lparr>citationCount := 1000\<rparr>] ''deep learning'' = [o1, o0]"
    and f1: "(title o1, authors o1, year o1, abstract o1, url o1, source o1, citationCount o1, doi o1)
         = (title ?r, authors ?r, year ?r, abstract ?r, url ?r, source ?r, 1000, doi ?r)"
    and f0: "(title o0, authors o0, year o0, abstract o0, url o0, source o0, citationCount o0, doi o0)
         = (title ?r, authors ?r, year ?r, abstract ?r, url ?r, source ?r, 0, doi ?r)"
    and lt: "relevanceScore o0 < relevanceScore o1"
    and ev: "even (7778566362429540::int) \<longrightarrow>
        relevanceScore o1 - relevanceScore o0 = example_log 1001 * 0.5"
    using C6_citation_count_log_damped [where r = ?r and q = "''deep learning''"
        and impl = example_log and k = 7778566362429540 and cy = 2026, OF h1 h2 h3 h4 h5 h6]
    by blast
  have "relevanceScore o1 - relevanceScore o0 = 7778566362429540 / 2 ^ 51"
    using ev e by (simp add: example_log_def)
  with o f1 f0 lt show ?thesis
    by blast
qed

subsection \<open>Order of the ranking\<close>

text \<open>
  C7. The output of \<^verbatim>\<open>rankResults\<close> is the list of the scored records in
  non-increasing order of the score, and the records of equal score keep the order of
  the input. It is the only list with these properties, so the order of the output is
  determined by the input, the query and the current year.
\<close>

theorem C7_rank_sorted_stable:
  "descending (rankResults impl cy rs q)
   \<and> mset (rankResults impl cy rs q) = mset (scored impl cy q rs)
   \<and> (\<forall>s. filter (\<lambda>a. relevanceScore a = s) (rankResults impl cy rs q)
          = filter (\<lambda>a. relevanceScore a = s) (scored impl cy q rs))
   \<and> (\<forall>ys. descending ys \<and> mset ys = mset (scored impl cy q rs)
          \<and> (\<forall>s. filter (\<lambda>a. relevanceScore a = s) ys
                = filter (\<lambda>a. relevanceScore a = s) (scored impl cy q rs))
        \<longrightarrow> ys = rankResults impl cy rs q)"
proof (intro conjI allI impI)
  show "descending (rankResults impl cy rs q)"
    by (simp add: descending_sorted rankResults_scored)
  show "mset (rankResults impl cy rs q) = mset (scored impl cy q rs)"
    by (simp add: rankResults_scored)
next
  fix s
  show "filter (\<lambda>a. relevanceScore a = s) (rankResults impl cy rs q)
      = filter (\<lambda>a. relevanceScore a = s) (scored impl cy q rs)"
    using sort_key_stable [of "\<lambda>a. - relevanceScore a" "- s" "scored impl cy q rs"]
    by (simp add: rankResults_scored)
next
  fix ys
  assume a: "descending ys \<and> mset ys = mset (scored impl cy q rs)
      \<and> (\<forall>s. filter (\<lambda>a. relevanceScore a = s) ys
            = filter (\<lambda>a. relevanceScore a = s) (scored impl cy q rs))"
  have "sort_key (\<lambda>a. - relevanceScore a) (scored impl cy q rs) = ys"
  proof (rule properties_for_sort_key)
    show "mset ys = mset (scored impl cy q rs)" using a by simp
    show "sorted (map (\<lambda>a. - relevanceScore a) ys)"
      using a by (simp add: descending_sorted)
    fix k
    from a have "filter (\<lambda>a. relevanceScore a = relevanceScore k) ys
        = filter (\<lambda>a. relevanceScore a = relevanceScore k) (scored impl cy q rs)"
      by blast
    then show "filter (\<lambda>x. - relevanceScore k = - relevanceScore x) ys
        = filter (\<lambda>x. - relevanceScore k = - relevanceScore x) (scored impl cy q rs)"
      by (simp add: eq_commute)
  qed
  then show "ys = rankResults impl cy rs q"
    by (simp add: rankResults_scored)
qed

theorem C7_rank_sorted_stable_witness:
  "rankResults example_log 2026 [paper ''Graph Theory'' None, paper ''Deep Learning Methods'' None]
     ''deep learning''
   = [with_score (paper ''Deep Learning Methods'' None) 16,
      with_score (paper ''Graph Theory'' None) 0]"
proof -
  let ?g = "paper ''Graph Theory'' None"
  let ?d = "paper ''Deep Learning Methods'' None"
  let ?ys = "[with_score ?d 16, with_score ?g 0]"
  have sc: "scored example_log 2026 ''deep learning'' [?g, ?d] = [with_score ?g 0, with_score ?d 16]"
    by (simp add: scored_def score_deep score_graph)
  have h1: "descending ?ys"
    by (simp add: descending_def with_score_def)
  have h2: "mset ?ys = mset (scored example_log 2026 ''deep learning'' [?g, ?d])"
    by (simp add: sc)
  have h3: "\<forall>s. filter (\<lambda>a. relevanceScore a = s) ?ys
      = filter (\<lambda>a. relevanceScore a = s) (scored example_log 2026 ''deep learning'' [?g, ?d])"
    by (simp add: sc with_score_def)
  note t = C7_rank_sorted_stable [of example_log 2026 "[?g, ?d]" "''deep learning''"]
  note u = t [THEN conjunct2, THEN conjunct2, THEN conjunct2, rule_format, of ?ys]
  have "?ys = rankResults example_log 2026 [?g, ?d] ''deep learning''"
    using h1 h2 h3 by (intro u) simp
  then show ?thesis by simp
qed

subsection \<open>Validation and success\<close>

text \<open>
  C8, as stated, fails: the body is read and destructured inside the \<^verbatim>\<open>try\<close> block,
  so a POST request whose body is missing, is not JSON or is \<^verbatim>\<open>null\<close> has no query
  and is answered 500, not 400.
\<close>

theorem C8_counterexample:
  "serve (example_env (Fulfilled [paper ''Deep Learning'' None]) Rejected)
     \<lparr>req_method = ''POST'', req_json = None\<rparr>
   = (\<lparr>status = 500, body = InternalError\<rparr>, [])"
  by (simp add: serve_def)

text \<open>
  C8, amended. For every request other than the CORS preflight whose body is read as a
  JSON object and whose query is absent or empty, the handler answers 400 and has made
  no call: no query expansion, no provider search, no deduplication, no ranking, no
  insert into the history. A request whose body cannot be read as a JSON object is
  answered 500, and a CORS preflight 200, both without any call either.
\<close>

theorem C8_falsy_query_no_work:
  "(req_method req \<noteq> ''OPTIONS'' \<and> req_json req = Some js
      \<and> (query js = None \<or> query js = Some [])
     \<longrightarrow> serve env req = (\<lparr>status = 400, body = QueryRequired\<rparr>, []))
   \<and> (req_method req \<noteq> ''OPTIONS'' \<and> req_json req = None
     \<longrightarrow> serve env req = (\<lparr>status = 500, body = InternalError\<rparr>, []))
   \<and> (req_method req = ''OPTIONS''
     \<longrightarrow> serve env req = (\<lparr>status = 200, body = NoBody\<rparr>, []))"
  by (auto simp: serve_def)

theorem C8_falsy_query_no_work_witness:
  "serve (example_env (Fulfilled [paper ''Deep Learning'' None]) Rejected)
       (post (Some []) (Some ''u1''))
     = (\<lparr>status = 400, body = QueryRequired\<rparr>, [])
   \<and> serve (example_env (Fulfilled [paper ''Deep Learning'' None]) Rejected) (post None None)
     = (\<lparr>status = 400, body = QueryRequired\<rparr>, [])
   \<and> serve (example_env (Fulfilled [paper ''Deep Learning'' None]) Rejected)
       \<lparr>req_method = ''PUT'', req_json = None\<rparr>
     = (\<lparr>status = 500, body = InternalError\<rparr>, [])
   \<and> serve (example_env (Fulfilled [paper ''Deep Learning'' None]) Rejected)
       \<lparr>req_method = ''OPTIONS'', req_json = None\<rparr>
     = (\<lparr>status = 200, body = NoBody\<rparr>, [])"
proof -
  let ?env = "example_env (Fulfilled [paper ''Deep Learning'' None]) Rejected"
  note a = C8_falsy_query_no_work
    [of "post (Some []) (Some ''u1'')" "\<lparr>query = Some [], userId = Some ''u1''\<rparr>" ?env,
      THEN conjunct1, rule_format]
  note b = C8_falsy_query_no_work
    [of "post None None" "\<lparr>query = None, userId = None\<rparr>" ?env,
      THEN conjunct1, rule_format]
  note c = C8_falsy_query_no_work
    [of "\<lparr>req_method = ''PUT'', req_json = None\<rparr>" _ ?env,
      THEN conjunct2, THEN conjunct1, rule_format]
  note d = C8_falsy_query_no_work
    [of "\<lparr>req_method = ''OPTIONS'', req_json = None\<rparr>" _ ?env,
      THEN conjunct2, THEN conjunct2, rule_format]
  have "serve ?env (post (Some []) (Some ''u1'')) = (\<lparr>status = 400, body = QueryRequired\<rparr>, [])"
    by (rule a) (simp add: post_def)
  moreover have "serve ?env (post None None) = (\<lparr>status = 400, body = QueryRequired\<rparr>, [])"
    by (rule b) (simp add: post_def)
  moreover have "serve ?env \<lparr>req_method = ''PUT'', req_json = None\<rparr>
      = (\<lparr>status = 500, body = InternalError\<rparr>, [])"
    by (rule c) simp
  moreover have "serve ?env \<lparr>req_method = ''OPTIONS'', req_json = None\<rparr>
      = (\<lparr>status = 200, body = NoBody\<rparr>, [])"
    by (rule d) simp
  ultimately show ?thesis by simp
qed

text \<open>
  C9. Whenever the handler answers 200 (the CORS preflight apart), the body has the
  results of at least one provider: the aggregated list is not empty, the results are
  the first 10 of the ranked deduplicated records, \<open>totalFound\<close> is the number of
  deduplicated records and at least 1, and the results are \<open>min totalFound 10\<close> many
  and not empty. \<^verbatim>\<open>deduplicateResults\<close> and \<^verbatim>\<open>rankResults\<close> are called only on the
  way to a 200 answer, and \<^verbatim>\<open>deduplicateResults\<close> of a non-empty list is not empty.
\<close>

theorem C9_success_is_nonempty:
  "(status (fst (serve env req)) = 200 \<and> req_method req \<noteq> ''OPTIONS'' \<longrightarrow>
      (\<exists>q e results totalFound all.
         body (fst (serve env req)) = SearchResults q e results totalFound
         \<and> all = aggregate (searchSemanticScholar env e) (searchCrossRef env e)
         \<and> all \<noteq> []
         \<and> results = take 10 (rankResults (log_impl env) (currentYear env) (deduplicateResults all) q)
         \<and> totalFound = length (deduplicateResults all)
         \<and> results \<noteq> [] \<and> 1 \<le> totalFound
         \<and> length results = min totalFound 10))
   \<and> (\<forall>st q e results totalFound.
        fst (serve env req) = \<lparr>status = st, body = SearchResults q e results totalFound\<rparr>
        \<longrightarrow> st = 200 \<and> results \<noteq> [] \<and> 1 \<le> totalFound)
   \<and> (CallDeduplicateResults \<in> set (snd (serve env req)) \<or> CallRankResults \<in> set (snd (serve env req))
        \<longrightarrow> status (fst (serve env req)) = 200)
   \<and> (\<forall>xs. xs \<noteq> [] \<longrightarrow> deduplicateResults xs \<noteq> [])"
proof (intro conjI allI impI)
  assume a: "status (fst (serve env req)) = 200 \<and> req_method req \<noteq> ''OPTIONS''"
  then have "\<exists>js q. req_json req = Some js \<and> query js = Some q \<and> q \<noteq> []
       \<and> serve env req = search env q (userId js)"
    by (intro serve_ok_cases) simp_all
  then obtain js :: request_json and q where s: "serve env req = search env q (userId js)"
    by blast
  let ?e = "fst (expansion env q)"
  let ?all = "aggregate (searchSemanticScholar env ?e) (searchCrossRef env ?e)"
  let ?ranked = "rankResults (log_impl env) (currentYear env) (deduplicateResults ?all) q"
  from a s have ne: "?all \<noteq> []"
    by (auto simp: search_cases Let_def split: if_splits)
  then have b: "body (fst (serve env req)) = SearchResults q ?e (take 10 ?ranked) (length ?ranked)"
    using s by (simp add: search_cases Let_def)
  have l: "length ?ranked = length (deduplicateResults ?all)"
    by (rule length_rankResults)
  have p: "0 < length (deduplicateResults ?all)"
    using ne by (simp add: deduplicateResults_empty_iff)
  show "\<exists>q e results totalFound all.
         body (fst (serve env req)) = SearchResults q e results totalFound
         \<and> all = aggregate (searchSemanticScholar env e) (searchCrossRef env e)
         \<and> all \<noteq> []
         \<and> results = take 10 (rankResults (log_impl env) (currentYear env) (deduplicateResults all) q)
         \<and> totalFound = length (deduplicateResults all)
         \<and> results \<noteq> [] \<and> 1 \<le> totalFound
         \<and> length results = min totalFound 10"
    apply (rule exI [of _ q], rule exI [of _ ?e], rule exI [of _ "take 10 ?ranked"],
        rule exI [of _ "length (deduplicateResults ?all)"], rule exI [of _ ?all])
    using b l p ne by (auto simp: Suc_le_eq)
next
  fix st q e results totalFound
  assume a: "fst (serve env req) = \<lparr>status = st, body = SearchResults q e results totalFound\<rparr>"
  then have "st = 200"
    by (auto simp: serve_def search_cases Let_def split: option.splits if_splits)
  with a serve_results_nonempty [of env req st q e results totalFound]
  show "st = 200" and "results \<noteq> []" and "1 \<le> totalFound"
    by simp_all
next
  assume "CallDeduplicateResults \<in> set (snd (serve env req))
      \<or> CallRankResults \<in> set (snd (serve env req))"
  then show "status (fst (serve env req)) = 200"
    by (auto simp: serve_def search_cases Let_def expansion_def split: option.splits if_splits)
next
  fix xs :: "NormalizedCitation list"
  assume "xs \<noteq> []"
  then show "deduplicateResults xs \<noteq> []"
    by (simp add: deduplicateResults_empty_iff)
qed

theorem C9_success_is_nonempty_witness:
  "status (fst (serve (example_env (Fulfilled [paper ''Deep Learning Methods'' None]) Rejected)
       (post (Some ''deep learning'') None))) = 200
   \<and> (\<exists>q e results totalFound.
        body (fst (serve (example_env (Fulfilled [paper ''Deep Learning Methods'' None]) Rejected)
          (post (Some ''deep learning'') None))) = SearchResults q e results totalFound
        \<and> results \<noteq> [] \<and> 1 \<le> totalFound \<and> length results = min totalFound 10)
   \<and> [with_score (paper ''Deep Learning Methods'' None) 16] \<noteq> []
   \<and> deduplicateResults [paper ''Deep Learning Methods'' None] \<noteq> []"
proof -
  let ?env = "example_env (Fulfilled [paper ''Deep Learning Methods'' None]) Rejected"
  let ?req = "post (Some ''deep learning'') None"
  note t = C9_success_is_nonempty [of ?env ?req]
  note t1 = t [THEN conjunct1, rule_format]
  note t2 = t [THEN conjunct2, THEN conjunct1, rule_format,
      of 200 "''deep learning''" "''deep learning''"
         "[with_score (paper ''Deep Learning Methods'' None) 16]" 1]
  note t3 = t [THEN conjunct2, THEN conjunct2, THEN conjunct1, rule_format]
  note t4 = t [THEN conjunct2, THEN conjunct2, THEN conjunct2, rule_format,
      of "[paper ''Deep Learning Methods'' None]"]
  have st: "status (fst (serve ?env ?req)) = 200"
    by (rule t3) (simp add: serve_example)
  have m: "req_method ?req \<noteq> ''OPTIONS''"
    by (simp add: post_def)
  have "\<exists>q e results totalFound all.
         body (fst (serve ?env ?req)) = SearchResults q e results totalFound
         \<and> all = aggregate (searchSemanticScholar ?env e) (searchCrossRef ?env e)
         \<and> all \<noteq> []
         \<and> results = take 10 (rankResults (log_impl ?env) (currentYear ?env) (deduplicateResults all) q)
         \<and> totalFound = length (deduplicateResults all)
         \<and> results \<noteq> [] \<and> 1 \<le> totalFound
         \<and> length results = min totalFound 10"
    using st m by (intro t1) simp
  then have a: "\<exists>q e results totalFound.
        body (fst (serve ?env ?req)) = SearchResults q e results totalFound
        \<and> results \<noteq> [] \<and> 1 \<le> totalFound \<and> length results = min totalFound 10"
    by blast
  have b: "[with_score (paper ''Deep Learning Methods'' None) 16] \<noteq> []"
    using t2 by (simp add: serve_example)
  have c: "deduplicateResults [paper ''Deep Learning Methods'' None] \<noteq> []"
    by (rule t4) simp
  from st a b c show ?thesis by blast
qed

subsection \<open>Order of the providers\<close>

text \<open>
  C10. The aggregated list is the records of Semantic Scholar followed by the records of
  CrossRef. \<^verbatim>\<open>deduplicateResults\<close> therefore keeps the first occurrences among the
  Semantic Scholar records and, of the CrossRef records, those whose key no Semantic
  Scholar record has: when a Semantic Scholar record, the first with its key among them,
  and a CrossRef record have the same key, the former is kept and the latter dropped.
\<close>

theorem C10_semantic_scholar_first:
  "aggregate s c = pushed s @ pushed c
   \<and> aggregate (Fulfilled ss) (Fulfilled cr) = ss @ cr
   \<and> deduplicateResults (ss @ cr) = nths (ss @ cr) {i. first_occurrence (ss @ cr) i}
   \<and> deduplicateResults (ss @ cr) =
       deduplicateResults ss
       @ filter (\<lambda>r. dedup_key r \<notin> dedup_key ` set ss) (deduplicateResults cr)
   \<and> (\<forall>i j. i < length ss \<and> j < length cr \<and> dedup_key (ss ! i) = dedup_key (cr ! j)
          \<and> (\<forall>k<i. dedup_key (ss ! k) \<noteq> dedup_key (ss ! i))
        \<longrightarrow> first_occurrence (ss @ cr) i \<and> \<not> first_occurrence (ss @ cr) (length ss + j))"
proof (intro conjI allI impI)
  show "aggregate s c = pushed s @ pushed c"
    by (rule aggregate_pushed)
  show "aggregate (Fulfilled ss) (Fulfilled cr) = ss @ cr"
    by (simp add: aggregate_def)
  show "deduplicateResults (ss @ cr) = nths (ss @ cr) {i. first_occurrence (ss @ cr) i}"
    by (rule dedup_nths)
  show "deduplicateResults (ss @ cr) =
       deduplicateResults ss
       @ filter (\<lambda>r. dedup_key r \<notin> dedup_key ` set ss) (deduplicateResults cr)"
    by (rule deduplicateResults_append)
next
  fix i j
  assume a: "i < length ss \<and> j < length cr \<and> dedup_key (ss ! i) = dedup_key (cr ! j)
          \<and> (\<forall>k<i. dedup_key (ss ! k) \<noteq> dedup_key (ss ! i))"
  then have i: "i < length ss" and f: "\<forall>k<i. dedup_key (ss ! k) \<noteq> dedup_key (ss ! i)"
    by blast+
  then have "\<forall>k<i. dedup_key ((ss @ cr) ! k) \<noteq> dedup_key ((ss @ cr) ! i)"
    by (simp add: nth_append)
  with i show "first_occurrence (ss @ cr) i"
    by (simp add: first_occurrence_iff)
  from a have "dedup_key ((ss @ cr) ! i) = dedup_key ((ss @ cr) ! (length ss + j))"
    by (simp add: nth_append)
  with a show "\<not> first_occurrence (ss @ cr) (length ss + j)"
    by (intro later_duplicate_dropped [of i]) simp_all
qed

theorem C10_semantic_scholar_first_witness:
  "aggregate (Fulfilled [(paper ''Foo'' (Some ''10.1/x''))\<lparr>source := ''Semantic Scholar''\<rparr>])
     (Fulfilled [paper ''Bar'' (Some ''10.1/x'')])
   = [(paper ''Foo'' (Some ''10.1/x''))\<lparr>source := ''Semantic Scholar''\<rparr>,
      paper ''Bar'' (Some ''10.1/x'')]
   \<and> first_occurrence
        ([(paper ''Foo'' (Some ''10.1/x''))\<lparr>source := ''Semantic Scholar''\<rparr>]
         @ [paper ''Bar'' (Some ''10.1/x'')]) 0
   \<and> \<not> first_occurrence
        ([(paper ''Foo'' (Some ''10.1/x''))\<lparr>source := ''Semantic Scholar''\<rparr>]
         @ [paper ''Bar'' (Some ''10.1/x'')]) 1"
proof -
  let ?s = "(paper ''Foo'' (Some ''10.1/x''))\<lparr>source := ''Semantic Scholar''\<rparr>"
  let ?c = "paper ''Bar'' (Some ''10.1/x'')"
  have ks: "dedup_key ?s = ''10.1/x''"
    by (simp add: dedup_key_def paper_def)
  note t = C10_semantic_scholar_first [of "Fulfilled [?s]" "Fulfilled [?c]" "[?s]" "[?c]"]
  note u = t [THEN conjunct2, THEN conjunct2, THEN conjunct2, THEN conjunct2, rule_format, of 0 0]
  have "first_occurrence ([?s] @ [?c]) 0 \<and> \<not> first_occurrence ([?s] @ [?c]) (length [?s] + 0)"
    by (rule u) (simp add: ks key_bar)
  then show ?thesis
    using t [THEN conjunct2, THEN conjunct1] by simp
qed

end
